theory Spec2Isabelle
  imports Complex_Main "HOL-Library.AList" "HOL-Library.Log_Nat"
begin

section \<open>Data model\<close>

text \<open>
  The two Mongoose collections the routes work on, \<open>User\<close> and \<open>Class\<close>. A collection
  is an association list from \<open>_id\<close> to document, in insertion order; a lookup by \<open>_id\<close>
  takes the first binding. An \<open>_id\<close> is the string form of the ObjectId.
\<close>

type_synonym oid = string

datatype level = LevelNum int | LevelTag string

record slot =
  day :: string
  startTime :: string
  endTime :: string

text \<open>
  Modelled from the spec: the schemas \<open>api/schemas/User.js\<close> and
  \<open>api/schemas/Class.js\<close> are imported by the routes but are not among the sources.
  The fields are those of the spec's data model, under the names the routes use
  (\<open>clerkId\<close> is the IdP subject id, \<open>imageUrl\<close> the field \<open>image\<close>).
\<close>

record user =
  firstName :: string
  lastName :: string
  email :: string
  whatsapp :: "string option"
  clerkId :: string
  gender :: "string option"
  privilege :: string
  enrolledClasses :: "oid list"
  creationDate :: string

record cls =
  level :: level
  ageGroup :: string
  instructor :: string
  schedule :: "slot list"
  isEnrollmentOpen :: bool
  imageUrl :: string
  link :: string
  roster :: "oid list"

record db =
  userColl :: "(oid \<times> user) list"
  classColl :: "(oid \<times> cls) list"

section \<open>JavaScript numbers and JSON documents\<close>

text \<open>
  A JavaScript number: not-a-number, the two infinities, or a finite double, given by the
  real it stands for. \<open>||\<close>, \<open>Math.min\<close> and \<open>Math.max\<close> return one of their
  arguments; \<open>-\<close> and \<open>*\<close> round the exact result to a double (\<open>toDouble\<close>). The
  sign of a zero is not kept.
\<close>

datatype jsnum = NaN | NegInf | Fin real | PosInf

fun truthyNum :: "jsnum \<Rightarrow> bool" where
  "truthyNum NaN = False"
| "truthyNum (Fin r) = (r \<noteq> 0)"
| "truthyNum NegInf = True"
| "truthyNum PosInf = True"

definition js_or :: "jsnum \<Rightarrow> jsnum \<Rightarrow> jsnum" where
  "js_or a b = (if truthyNum a then a else b)"

fun js_le :: "jsnum \<Rightarrow> jsnum \<Rightarrow> bool" where
  "js_le NaN _ = False"
| "js_le _ NaN = False"
| "js_le NegInf _ = True"
| "js_le _ PosInf = True"
| "js_le (Fin a) (Fin b) = (a \<le> b)"
| "js_le (Fin a) NegInf = False"
| "js_le PosInf (Fin b) = False"
| "js_le PosInf NegInf = False"

definition math_min :: "jsnum \<Rightarrow> jsnum \<Rightarrow> jsnum" where
  "math_min a b = (if a = NaN \<or> b = NaN then NaN else if js_le a b then a else b)"

definition math_max :: "jsnum \<Rightarrow> jsnum \<Rightarrow> jsnum" where
  "math_max a b = (if a = NaN \<or> b = NaN then NaN else if js_le a b then b else a)"

text \<open>
  Rounding to a double, to nearest with ties to even: 53 significant bits at the exponent
  of the number, the exponent not below -1022 (below that the spacing stays
  \<open>2 powi -1074\<close>), and an infinity once the rounded value reaches \<open>2 ^ 1024\<close>.
  \<open>binaryExponent x\<close> is the exponent of a positive \<open>x\<close>, the whole part of its
  logarithm to base 2, from the bit length of a whole number.
\<close>

definition roundHalfEven :: "real \<Rightarrow> int" where
  "roundHalfEven x =
     (let f = \<lfloor>x\<rfloor>; d = x - of_int f
      in if d < 1 / 2 then f else if 1 / 2 < d then f + 1 else if even f then f else f + 1)"

definition overflowBound :: real where
  "overflowBound = 2 ^ 1024"

definition binaryExponent :: "real \<Rightarrow> int" where
  "binaryExponent x = (if 1 \<le> x then bitlen \<lfloor>x\<rfloor> - 1 else - bitlen (\<lceil>1 / x\<rceil> - 1))"

definition toDouble :: "real \<Rightarrow> jsnum" where
  "toDouble r =
     (if r = 0 then Fin 0
      else let e = max (binaryExponent \<bar>r\<bar>) (- 1022);
               u = 2 powi (e - 52);
               v = of_int (roundHalfEven (r / u)) * u
           in if overflowBound \<le> \<bar>v\<bar> then (if 0 < r then PosInf else NegInf) else Fin v)"

fun js_neg :: "jsnum \<Rightarrow> jsnum" where
  "js_neg NaN = NaN"
| "js_neg NegInf = PosInf"
| "js_neg PosInf = NegInf"
| "js_neg (Fin r) = Fin (- r)"

fun js_add :: "jsnum \<Rightarrow> jsnum \<Rightarrow> jsnum" where
  "js_add NaN _ = NaN"
| "js_add _ NaN = NaN"
| "js_add (Fin a) (Fin b) = toDouble (a + b)"
| "js_add PosInf NegInf = NaN"
| "js_add NegInf PosInf = NaN"
| "js_add PosInf _ = PosInf"
| "js_add _ PosInf = PosInf"
| "js_add NegInf _ = NegInf"
| "js_add _ NegInf = NegInf"

definition js_sub :: "jsnum \<Rightarrow> jsnum \<Rightarrow> jsnum" where
  "js_sub a b = js_add a (js_neg b)"

fun js_sign :: "jsnum \<Rightarrow> int" where
  "js_sign NaN = 0"
| "js_sign NegInf = - 1"
| "js_sign PosInf = 1"
| "js_sign (Fin r) = (if r < 0 then - 1 else if r = 0 then 0 else 1)"

fun js_mul :: "jsnum \<Rightarrow> jsnum \<Rightarrow> jsnum" where
  "js_mul NaN _ = NaN"
| "js_mul _ NaN = NaN"
| "js_mul (Fin a) (Fin b) = toDouble (a * b)"
| "js_mul a b =
     (if js_sign a * js_sign b = 0 then NaN
      else if js_sign a * js_sign b < 0 then NegInf else PosInf)"

text \<open>A document as the response carries it: an object is its list of fields.\<close>

datatype json =
    JString string
  | JNumber int
  | JBool bool
  | JId oid
  | JArray "json list"
  | JObject "(string \<times> json) list"

type_synonym doc = "(string \<times> json) list"

section \<open>Boundary calls, faults and responses\<close>

text \<open>
  Every call a handler makes to the database or to the IdP (Clerk). A handler's trace is the
  list of the calls it issued, in order. Each of them may throw; which ones do is the
  environment's choice (\<open>fails\<close>). The IdP's answer to \<open>users.getUser\<close> is the
  environment's too: the \<open>emailAddresses\<close> of the subject, as pairs of record id and
  address.
\<close>

text \<open>The body of \<open>PUT /user/:id\<close>: the fields it sets; \<open>None\<close> is a field it does not have.\<close>

record updates =
  u_firstName :: "string option"
  u_lastName :: "string option"
  u_email :: "string option"
  u_whatsapp :: "string option"
  u_gender :: "string option"
  u_privilege :: "string option"

datatype call =
    UserFindOneByClerkId string
  | UserFindMe string
  | UserFindOneByFilter "(string \<times> string) list"
  | UserFindById oid
  | UserFindStudents jsnum jsnum
  | UserCountStudents
  | ClassPopulate
  | UserFindByIdAndUpdate oid updates
  | UserAddToSetEnrolled oid oid
  | UserPullEnrolled oid oid
  | UserFindByIdAndDelete oid
  | ClassFindById "oid option"
  | ClassAddToSetRoster oid oid
  | ClassPullRoster oid oid
  | ClerkCreateEmailAddress string string bool bool
  | ClerkGetUser string
  | ClerkDeleteEmailAddress string
  | ClerkDeleteUser string

record env =
  fails :: "call \<Rightarrow> bool"
  clerkEmails :: "string \<Rightarrow> (string \<times> string) list"

datatype body =
    Message string
  | Error string
  | UserJson "(oid \<times> user) option"
  | PageJson "doc list" nat jsnum jsnum
  | ThrownError

record result =
  status :: nat
  body :: body
  store :: db
  trace :: "call list"

definition reply :: "nat \<Rightarrow> body \<Rightarrow> db \<Rightarrow> call list \<Rightarrow> result" where
  "reply s b d t = \<lparr>status = s, body = b, store = d, trace = t\<rparr>"

section \<open>Store operations\<close>

definition findById :: "(oid \<times> 'a) list \<Rightarrow> oid \<Rightarrow> 'a option" where
  "findById coll i = map_of coll i"

text \<open>\<open>User.findOne({ clerkId })\<close>: the first user, in the collection's order, with that IdP id.\<close>

definition findOneByClerkId :: "(oid \<times> user) list \<Rightarrow> string \<Rightarrow> (oid \<times> user) option" where
  "findOneByClerkId coll s = find (\<lambda>(i, u). clerkId u = s) coll"

text \<open>\<open>$addToSet\<close> appends a value that is not there yet; \<open>$pull\<close> removes every occurrence.\<close>

definition addToSet :: "oid \<Rightarrow> oid list \<Rightarrow> oid list" where
  "addToSet x xs = (if x \<in> set xs then xs else xs @ [x])"

definition pull :: "oid \<Rightarrow> oid list \<Rightarrow> oid list" where
  "pull x xs = removeAll x xs"

text \<open>
  \<open>findByIdAndUpdate\<close> changes the document with that \<open>_id\<close>, and nothing when there is
  none; \<open>findByIdAndDelete\<close> removes it.
\<close>

definition updateById :: "oid \<Rightarrow> ('a \<Rightarrow> 'a) \<Rightarrow> (oid \<times> 'a) list \<Rightarrow> (oid \<times> 'a) list" where
  "updateById i f coll = AList.map_entry i f coll"

definition deleteById :: "oid \<Rightarrow> (oid \<times> 'a) list \<Rightarrow> (oid \<times> 'a) list" where
  "deleteById i coll = AList.delete i coll"

definition addEnrolled :: "oid \<Rightarrow> oid \<Rightarrow> db \<Rightarrow> db" where
  "addEnrolled uid cid d =
     d\<lparr>userColl := updateById uid
          (\<lambda>u. u\<lparr>enrolledClasses := addToSet cid (enrolledClasses u)\<rparr>) (userColl d)\<rparr>"

definition pullEnrolled :: "oid \<Rightarrow> oid \<Rightarrow> db \<Rightarrow> db" where
  "pullEnrolled uid cid d =
     d\<lparr>userColl := updateById uid
          (\<lambda>u. u\<lparr>enrolledClasses := pull cid (enrolledClasses u)\<rparr>) (userColl d)\<rparr>"

definition addRoster :: "oid \<Rightarrow> oid \<Rightarrow> db \<Rightarrow> db" where
  "addRoster cid uid d =
     d\<lparr>classColl := updateById cid (\<lambda>c. c\<lparr>roster := addToSet uid (roster c)\<rparr>) (classColl d)\<rparr>"

definition pullRoster :: "oid \<Rightarrow> oid \<Rightarrow> db \<Rightarrow> db" where
  "pullRoster cid uid d =
     d\<lparr>classColl := updateById cid (\<lambda>c. c\<lparr>roster := pull uid (roster c)\<rparr>) (classColl d)\<rparr>"

section \<open>Enroll and unenroll (api/index.js)\<close>

text \<open>
  \<open>app.put("/api/users/:id/enroll", ...)\<close>. \<open>valid\<close> is
  \<open>mongoose.Types.ObjectId.isValid\<close>; the class id of the body may be missing. A user
  that is not found makes \<open>user.enrolledClasses\<close> throw, a malformed class id makes
  \<open>Class.findById\<close> throw, and \<open>findById(undefined)\<close> finds nothing: the first two end in
  the handler's \<open>catch\<close>.
\<close>

definition includes_id :: "oid list \<Rightarrow> oid option \<Rightarrow> bool" where
  "includes_id xs c = (case c of None \<Rightarrow> False | Some x \<Rightarrow> x \<in> set xs)"

definition enrollFailed :: "db \<Rightarrow> call list \<Rightarrow> result" where
  "enrollFailed d t = reply 500 (Message ''Error enrolling into class'') d t"

definition enroll :: "(string \<Rightarrow> bool) \<Rightarrow> env \<Rightarrow> oid \<Rightarrow> oid option \<Rightarrow> db \<Rightarrow> result" where
  "enroll valid e i classId d =
    (if \<not> valid i then reply 400 (Error ''Invalid ID'') d []
     else if fails e (UserFindById i) then enrollFailed d [UserFindById i]
     else (case findById (userColl d) i of
       None \<Rightarrow> enrollFailed d [UserFindById i]
     | Some u \<Rightarrow>
       if includes_id (enrolledClasses u) classId
         then reply 400 (Message ''Already enrolled in this class'') d [UserFindById i]
       else if fails e (ClassFindById classId)
         then enrollFailed d [UserFindById i, ClassFindById classId]
       else (case classId of
         None \<Rightarrow> reply 404 (Message ''Class not found'') d
                   [UserFindById i, ClassFindById classId]
       | Some cid \<Rightarrow>
         if \<not> valid cid then enrollFailed d [UserFindById i, ClassFindById classId]
         else (case findById (classColl d) cid of
           None \<Rightarrow> reply 404 (Message ''Class not found'') d
                     [UserFindById i, ClassFindById classId]
         | Some c \<Rightarrow>
           if \<not> isEnrollmentOpen c
             then reply 403 (Message ''Enrollment is currently closed for this class.'') d
                    [UserFindById i, ClassFindById classId]
           else if fails e (UserAddToSetEnrolled i cid)
             then enrollFailed d
                    [UserFindById i, ClassFindById classId, UserAddToSetEnrolled i cid]
           else if fails e (ClassAddToSetRoster cid i)
             then enrollFailed (addEnrolled i cid d)
                    [UserFindById i, ClassFindById classId, UserAddToSetEnrolled i cid,
                     ClassAddToSetRoster cid i]
           else reply 201 (Message ''Enrolled successfully!'')
                  (addRoster cid i (addEnrolled i cid d))
                  [UserFindById i, ClassFindById classId, UserAddToSetEnrolled i cid,
                   ClassAddToSetRoster cid i]))))"

text \<open>
  \<open>app.put("/api/users/:id/unenroll", ...)\<close>. Nothing looks the class up: the second
  \<open>$pull\<close> goes to whatever class has that id, and a malformed or missing class id never
  gets that far, since no enrolled list includes it.
\<close>

definition unenrollFailed :: "db \<Rightarrow> call list \<Rightarrow> result" where
  "unenrollFailed d t = reply 500 (Message ''Error unenrolling into class'') d t"

definition unenroll :: "(string \<Rightarrow> bool) \<Rightarrow> env \<Rightarrow> oid \<Rightarrow> oid option \<Rightarrow> db \<Rightarrow> result" where
  "unenroll valid e i classId d =
    (if \<not> valid i then reply 400 (Error ''Invalid ID'') d []
     else if fails e (UserFindById i) then unenrollFailed d [UserFindById i]
     else (case findById (userColl d) i of
       None \<Rightarrow> unenrollFailed d [UserFindById i]
     | Some u \<Rightarrow>
       if \<not> includes_id (enrolledClasses u) classId
         then reply 400 (Message ''Not enrolled in this class'') d [UserFindById i]
       else (case classId of
         None \<Rightarrow> reply 400 (Message ''Not enrolled in this class'') d [UserFindById i]
       | Some cid \<Rightarrow>
         if fails e (UserPullEnrolled i cid)
           then unenrollFailed d [UserFindById i, UserPullEnrolled i cid]
         else if fails e (ClassPullRoster cid i)
           then unenrollFailed (pullEnrolled i cid d)
                  [UserFindById i, UserPullEnrolled i cid, ClassPullRoster cid i]
         else reply 201 (Message ''Successfully unenrolled'')
                (pullRoster cid i (pullEnrolled i cid d))
                [UserFindById i, UserPullEnrolled i cid, ClassPullRoster cid i])))"

text \<open>
  The two routes as \<open>api/index.js\<close> mounts them: the handler is the only middleware of the
  route, so what a request carries as IdP session (\<open>session\<close>: the subject id of a valid
  session, if there is one) is never read.
\<close>

record request =
  session :: "string option"
  paramId :: string
  bodyClassId :: "oid option"

definition putEnroll :: "(string \<Rightarrow> bool) \<Rightarrow> env \<Rightarrow> request \<Rightarrow> db \<Rightarrow> result" where
  "putEnroll valid e r d = enroll valid e (paramId r) (bodyClassId r) d"

definition putUnenroll :: "(string \<Rightarrow> bool) \<Rightarrow> env \<Rightarrow> request \<Rightarrow> db \<Rightarrow> result" where
  "putUnenroll valid e r d = unenroll valid e (paramId r) (bodyClassId r) d"

text \<open>
  A sequence of enroll and unenroll requests, each under its own fault plan, run one
  after the other on the store; the statuses answered are collected.
\<close>

datatype op = Enroll oid "oid option" | Unenroll oid "oid option"

fun applyOp :: "(string \<Rightarrow> bool) \<Rightarrow> env \<Rightarrow> op \<Rightarrow> db \<Rightarrow> result" where
  "applyOp valid e (Enroll i c) d = enroll valid e i c d"
| "applyOp valid e (Unenroll i c) d = unenroll valid e i c d"

fun runOps :: "(string \<Rightarrow> bool) \<Rightarrow> (env \<times> op) list \<Rightarrow> db \<Rightarrow> nat list \<times> db" where
  "runOps valid [] d = ([], d)"
| "runOps valid ((e, x) # xs) d =
     (let r = applyOp valid e x d; (ss, d') = runOps valid xs (store r)
      in (status r # ss, d'))"

text \<open>
  The bi-directional link of the data model: for every user and every class of the store,
  the class id is in the user's enrolled list iff the user id is in the class's roster;
  and no roster lists an id twice.
\<close>

definition linked :: "db \<Rightarrow> bool" where
  "linked d \<longleftrightarrow>
     (\<forall>i u j c. findById (userColl d) i = Some u \<and> findById (classColl d) j = Some c
        \<longrightarrow> (j \<in> set (enrolledClasses u) \<longleftrightarrow> i \<in> set (roster c)))"

definition consistent :: "db \<Rightarrow> bool" where
  "consistent d \<longleftrightarrow>
     linked d \<and> (\<forall>j c. findById (classColl d) j = Some c \<longrightarrow> distinct (roster c))"

section \<open>Gates and single-user routes (api/routes/user-routes.js)\<close>

definition isAdminOrInstructor :: "user option \<Rightarrow> bool" where
  "isAdminOrInstructor u =
     (case u of None \<Rightarrow> False | Some x \<Rightarrow> privilege x \<in> set [''admin'', ''instructor''])"

text \<open>
  \<open>getMe\<close>: the requester's own record, by the subject id of the session
  (\<open>req.auth?.userId\<close>); no lookup when there is none. \<open>Inl\<close> is a lookup that threw.
\<close>

definition getMe :: "env \<Rightarrow> db \<Rightarrow> string option \<Rightarrow> unit + user option" where
  "getMe e d a =
     (case a of
        None \<Rightarrow> Inr None
      | Some s \<Rightarrow>
          if s = [] then Inr None
          else if fails e (UserFindMe s) then Inl ()
          else Inr (map_option snd (findOneByClerkId (userColl d) s)))"

text \<open>
  \<open>allowSelfOrPriv\<close>, the gate of \<open>PUT /user/:id\<close> and \<open>GET /students-classes/:id\<close>:
  it calls \<open>next()\<close> or answers with a status. \<open>isSelf\<close> is
  \<open>target && req.auth?.userId && target.clerkId === req.auth.userId\<close>.
\<close>

datatype gate = Next | Reject nat body

definition isSelf :: "user \<Rightarrow> string option \<Rightarrow> bool" where
  "isSelf target a = (case a of None \<Rightarrow> False | Some s \<Rightarrow> s \<noteq> [] \<and> clerkId target = s)"

definition allowSelfOrPriv :: "(string \<Rightarrow> bool) \<Rightarrow> env \<Rightarrow> string option \<Rightarrow> string \<Rightarrow> db \<Rightarrow> gate" where
  "allowSelfOrPriv valid e a pid d =
     (case getMe e d a of
        Inl _ \<Rightarrow> Reject 500 (Message ''Auth check failed'')
      | Inr me \<Rightarrow>
          if isAdminOrInstructor me then Next
          else if pid = [] \<or> \<not> valid pid then Reject 400 (Message ''Invalid ID'')
          else if fails e (UserFindById pid) then Reject 500 (Message ''Auth check failed'')
          else (case findById (userColl d) pid of
                  None \<Rightarrow> Reject 404 (Message ''User not found'')
                | Some target \<Rightarrow>
                    if isSelf target a then Next else Reject 403 (Message ''Forbidden'')))"

text \<open>
  Modelled from the spec: \<open>validateInput\<close> of \<open>src/utils/backend/validate-utils.js\<close> is
  not among the sources. It is the spec's \<open>filterToAllowlist\<close>: a new mapping with only
  the keys of the allowlist whose values are non-empty strings.
\<close>

definition validateInput :: "(string \<times> string) list \<Rightarrow> string list \<Rightarrow> (string \<times> string) list" where
  "validateInput query allowedFields =
     filter (\<lambda>(k, v). k \<in> set allowedFields \<and> v \<noteq> []) query"

text \<open>\<open>User.findOne(filters)\<close> over the three fields the route allows.\<close>

definition fieldMatches :: "oid \<times> user \<Rightarrow> string \<times> string \<Rightarrow> bool" where
  "fieldMatches p kv =
     (if fst kv = ''_id'' then fst p = snd kv
      else if fst kv = ''email'' then email (snd p) = snd kv
      else if fst kv = ''whatsapp'' then whatsapp (snd p) = Some (snd kv)
      else False)"

definition findOneByFilter :: "(oid \<times> user) list \<Rightarrow> (string \<times> string) list \<Rightarrow> (oid \<times> user) option" where
  "findOneByFilter coll filters = find (\<lambda>p. list_all (fieldMatches p) filters) coll"

text \<open>
  \<open>router.get("/user", requireAuth, ...)\<close>; \<open>s\<close> is \<open>req.auth.userId\<close>, which
  \<open>requireAuth\<close> has set. An \<open>_id\<close> filter that is no ObjectId makes the query throw.
\<close>

definition getUser :: "(string \<Rightarrow> bool) \<Rightarrow> env \<Rightarrow> string \<Rightarrow> (string \<times> string) list \<Rightarrow> db \<Rightarrow> result" where
  "getUser valid e s query d =
     (let filters = validateInput query [''_id'', ''email'', ''whatsapp''];
          t0 = (if s = [] then [] else [UserFindMe s])
      in case getMe e d (Some s) of
           Inl _ \<Rightarrow> reply 500 ThrownError d t0
         | Inr me \<Rightarrow>
             if isAdminOrInstructor me \<and> filters \<noteq> [] then
               (if fails e (UserFindOneByFilter filters)
                     \<or> list_ex (\<lambda>kv. fst kv = ''_id'' \<and> \<not> valid (snd kv)) filters
                  then reply 500 ThrownError d (t0 @ [UserFindOneByFilter filters])
                else (case findOneByFilter (userColl d) filters of
                        None \<Rightarrow> reply 404 (Message ''User not found'') d
                                  (t0 @ [UserFindOneByFilter filters])
                      | Some p \<Rightarrow> reply 200 (UserJson (Some p)) d
                                  (t0 @ [UserFindOneByFilter filters])))
             else
               (if fails e (UserFindOneByClerkId s)
                  then reply 500 ThrownError d (t0 @ [UserFindOneByClerkId s])
                else (case findOneByClerkId (userColl d) s of
                        None \<Rightarrow> reply 404 (Message ''User not found'') d
                                  (t0 @ [UserFindOneByClerkId s])
                      | Some p \<Rightarrow> reply 200 (UserJson (Some p)) d
                                  (t0 @ [UserFindOneByClerkId s]))))"

text \<open>
  \<open>router.put("/user/:id", requireAuth, allowSelfOrPriv, ...)\<close>, the handler. The body's
  fields are the mutable ones of the data model; a field that is absent stays as it is.
\<close>

definition orElse :: "'a option \<Rightarrow> 'a \<Rightarrow> 'a" where
  "orElse x y = (case x of None \<Rightarrow> y | Some v \<Rightarrow> v)"

definition applyUpdates :: "updates \<Rightarrow> user \<Rightarrow> user" where
  "applyUpdates up u =
     u\<lparr>firstName := orElse (u_firstName up) (firstName u),
       lastName := orElse (u_lastName up) (lastName u),
       email := orElse (u_email up) (email u),
       whatsapp := (case u_whatsapp up of None \<Rightarrow> whatsapp u | Some w \<Rightarrow> Some w),
       gender := (case u_gender up of None \<Rightarrow> gender u | Some g \<Rightarrow> Some g),
       privilege := orElse (u_privilege up) (privilege u)\<rparr>"

definition updateFailed :: "db \<Rightarrow> call list \<Rightarrow> result" where
  "updateFailed d t = reply 500 (Message ''Failed to update user'') d t"

text \<open>The last step: \<open>User.findByIdAndUpdate(id, updates, {new, runValidators})\<close>.\<close>

definition localUpdate :: "env \<Rightarrow> oid \<Rightarrow> updates \<Rightarrow> db \<Rightarrow> call list \<Rightarrow> result" where
  "localUpdate e i up d t =
     (if fails e (UserFindByIdAndUpdate i up)
        then updateFailed d (t @ [UserFindByIdAndUpdate i up])
      else let d' = d\<lparr>userColl := updateById i (applyUpdates up) (userColl d)\<rparr>
           in reply 200 (UserJson (map_option (Pair i) (findById (userColl d') i))) d'
                (t @ [UserFindByIdAndUpdate i up]))"

text \<open>\<open>updates.email && originalUser.email !== updates.email\<close>: the new address, if any.\<close>

definition emailChange :: "updates \<Rightarrow> user \<Rightarrow> string option" where
  "emailChange up orig =
     (case u_email up of
        None \<Rightarrow> None
      | Some em \<Rightarrow> if em \<noteq> [] \<and> email orig \<noteq> em then Some em else None)"

definition putUser :: "(string \<Rightarrow> bool) \<Rightarrow> env \<Rightarrow> oid \<Rightarrow> updates \<Rightarrow> db \<Rightarrow> result" where
  "putUser valid e i up d =
    (if \<not> valid i then reply 400 (Error ''Invalid ID'') d []
     else if fails e (UserFindById i) then updateFailed d [UserFindById i]
     else (case findById (userColl d) i of
       None \<Rightarrow> reply 404 (Message ''User not found'') d [UserFindById i]
     | Some orig \<Rightarrow>
        (case emailChange up orig of
           None \<Rightarrow> localUpdate e i up d [UserFindById i]
         | Some em \<Rightarrow>
            let t1 = [UserFindById i, ClerkCreateEmailAddress (clerkId orig) em True True];
                t2 = t1 @ [ClerkGetUser (clerkId orig)]
            in if fails e (ClerkCreateEmailAddress (clerkId orig) em True True)
                 then updateFailed d t1
               else if fails e (ClerkGetUser (clerkId orig)) then updateFailed d t2
               else (case find (\<lambda>r. snd r = email orig) (clerkEmails e (clerkId orig)) of
                       None \<Rightarrow> localUpdate e i up d t2
                     | Some oldEmail \<Rightarrow>
                         if fst oldEmail = [] then localUpdate e i up d t2
                         else if fails e (ClerkDeleteEmailAddress (fst oldEmail))
                           then updateFailed d (t2 @ [ClerkDeleteEmailAddress (fst oldEmail)])
                         else localUpdate e i up d
                                (t2 @ [ClerkDeleteEmailAddress (fst oldEmail)])))))"

text \<open>
  \<open>router.delete("/user/:id", requireAuth, requireAdminOrInstructor, ...)\<close>, the handler.
  The roster pulls are all issued at once (\<open>Promise.all\<close>): one that throws stops the
  handler, the others take effect all the same.
\<close>

definition deleteFailed :: "db \<Rightarrow> call list \<Rightarrow> result" where
  "deleteFailed d t = reply 500 (Message ''Failed to delete user'') d t"

fun pullFromRosters :: "env \<Rightarrow> oid \<Rightarrow> oid list \<Rightarrow> db \<Rightarrow> db" where
  "pullFromRosters e i [] d = d"
| "pullFromRosters e i (c # cs) d =
     pullFromRosters e i cs (if fails e (ClassPullRoster c i) then d else pullRoster c i d)"

definition deleteUser :: "(string \<Rightarrow> bool) \<Rightarrow> env \<Rightarrow> oid \<Rightarrow> db \<Rightarrow> result" where
  "deleteUser valid e i d =
    (if \<not> valid i then reply 400 (Error ''Invalid ID'') d []
     else if fails e (UserFindById i) then deleteFailed d [UserFindById i]
     else (case findById (userColl d) i of
       None \<Rightarrow> reply 404 (Message ''User not found'') d [UserFindById i]
     | Some u \<Rightarrow>
        let cs = enrolledClasses u;
            d1 = pullFromRosters e i cs d;
            t1 = UserFindById i # map (\<lambda>c. ClassPullRoster c i) cs
        in if list_ex (\<lambda>c. fails e (ClassPullRoster c i)) cs then deleteFailed d1 t1
           else if fails e (ClerkDeleteUser (clerkId u))
             then deleteFailed d1 (t1 @ [ClerkDeleteUser (clerkId u)])
           else if fails e (UserFindByIdAndDelete i)
             then deleteFailed d1 (t1 @ [ClerkDeleteUser (clerkId u), UserFindByIdAndDelete i])
           else reply 204 (Message ''User deleted successfully'')
                  (d1\<lparr>userColl := deleteById i (userColl d1)\<rparr>)
                  (t1 @ [ClerkDeleteUser (clerkId u), UserFindByIdAndDelete i])))"

section \<open>Students with their classes (api/routes/user-routes.js)\<close>

text \<open>
  Modelled from the spec: the stored documents as field lists, with the field names of
  the spec's data model and of the routes (the schema files are not among the sources).
  An optional field that is not set is absent from the document.
\<close>

definition levelJson :: "level \<Rightarrow> json" where
  "levelJson l = (case l of LevelNum n \<Rightarrow> JNumber n | LevelTag t \<Rightarrow> JString t)"

definition slotJson :: "slot \<Rightarrow> json" where
  "slotJson sl =
     JObject [(''day'', JString (day sl)), (''startTime'', JString (startTime sl)),
              (''endTime'', JString (endTime sl))]"

definition optField :: "string \<Rightarrow> string option \<Rightarrow> doc" where
  "optField k v = (case v of None \<Rightarrow> [] | Some x \<Rightarrow> [(k, JString x)])"

definition userDoc :: "oid \<Rightarrow> user \<Rightarrow> doc" where
  "userDoc i u =
     [(''_id'', JId i), (''firstName'', JString (firstName u)),
      (''lastName'', JString (lastName u)), (''email'', JString (email u))]
     @ optField ''whatsapp'' (whatsapp u)
     @ [(''clerkId'', JString (clerkId u))]
     @ optField ''gender'' (gender u)
     @ [(''privilege'', JString (privilege u)),
        (''enrolledClasses'', JArray (map JId (enrolledClasses u))),
        (''creationDate'', JString (creationDate u))]"

definition classDoc :: "oid \<Rightarrow> cls \<Rightarrow> doc" where
  "classDoc j c =
     [(''_id'', JId j), (''level'', levelJson (level c)), (''ageGroup'', JString (ageGroup c)),
      (''instructor'', JString (instructor c)),
      (''schedule'', JArray (map slotJson (schedule c))),
      (''isEnrollmentOpen'', JBool (isEnrollmentOpen c)), (''image'', JString (imageUrl c)),
      (''link'', JString (link c)), (''roster'', JArray (map JId (roster c)))]"

text \<open>
  \<open>.select("a b c")\<close>: the names are the words of the string; an inclusive projection
  keeps \<open>_id\<close> as well (the admin page keys and links its rows by \<open>u._id\<close>).
\<close>

fun splitWords :: "string \<Rightarrow> string \<Rightarrow> string list" where
  "splitWords w [] = (if w = [] then [] else [w])"
| "splitWords w (c # cs) =
     (if c = CHR '' '' then (if w = [] then [] else [w]) @ splitWords [] cs
      else splitWords (w @ [c]) cs)"

definition select :: "string \<Rightarrow> doc \<Rightarrow> doc" where
  "select sel dc = filter (\<lambda>kv. fst kv = ''_id'' \<or> fst kv \<in> set (splitWords [] sel)) dc"

definition userSelect :: string where
  "userSelect = ''firstName lastName email privilege enrolledClasses creationDate''"

definition classSelect :: string where
  "classSelect = ''level ageGroup instructor schedule isEnrollmentOpen image''"

text \<open>
  \<open>.populate({ path: "enrolledClasses", select })\<close>: each id of the array gives way to the
  projected class document; an id with no class drops out.
\<close>

definition idOf :: "json \<Rightarrow> oid option" where
  "idOf v = (case v of JId i \<Rightarrow> Some i | _ \<Rightarrow> None)"

definition populatedClass :: "db \<Rightarrow> string \<Rightarrow> json \<Rightarrow> json option" where
  "populatedClass d sel v =
     (case idOf v of
        None \<Rightarrow> None
      | Some j \<Rightarrow> map_option (\<lambda>c. JObject (select sel (classDoc j c)))
                   (findById (classColl d) j))"

definition populateValue :: "db \<Rightarrow> string \<Rightarrow> json \<Rightarrow> json" where
  "populateValue d sel v =
     (case v of JArray xs \<Rightarrow> JArray (List.map_filter (populatedClass d sel) xs) | _ \<Rightarrow> v)"

definition populate :: "db \<Rightarrow> string \<Rightarrow> string \<Rightarrow> doc \<Rightarrow> doc" where
  "populate d path sel dc =
     map (\<lambda>kv. if fst kv = path then (fst kv, populateValue d sel (snd kv)) else kv) dc"

text \<open>
  The query of the request: \<open>limitN\<close> and \<open>pageN\<close> are \<open>Number(req.query.limit)\<close> and
  \<open>Number(req.query.page)\<close> (\<open>NaN\<close> for a parameter that is absent or no number);
  \<open>levelParam\<close> and \<open>qParam\<close> are the \<open>level\<close> and \<open>q\<close> the admin page sends.
\<close>

record pageQuery =
  limitN :: jsnum
  pageN :: jsnum
  levelParam :: "string option"
  qParam :: "string option"

definition effectiveLimit :: "pageQuery \<Rightarrow> jsnum" where
  "effectiveLimit q = math_max (Fin 1) (math_min (Fin 200) (js_or (limitN q) (Fin 100)))"

definition effectivePage :: "pageQuery \<Rightarrow> jsnum" where
  "effectivePage q = math_max (Fin 1) (js_or (pageN q) (Fin 1))"

definition effectiveSkip :: "pageQuery \<Rightarrow> jsnum" where
  "effectiveSkip q = js_mul (js_sub (effectivePage q) (Fin 1)) (effectiveLimit q)"

text \<open>
  \<open>.skip(skip).limit(limit)\<close>. How the driver reads a JavaScript number as a count of
  documents is the parameter \<open>toCount\<close> (\<open>None\<close>: it rejects the number, and the query
  throws); \<open>wholeCount\<close> is the reading of the whole numbers.
\<close>

definition slice :: "(jsnum \<Rightarrow> nat option) \<Rightarrow> jsnum \<Rightarrow> jsnum \<Rightarrow> 'a list \<Rightarrow> 'a list option" where
  "slice toCount sk lm xs =
     (case toCount sk of
        None \<Rightarrow> None
      | Some s \<Rightarrow> (case toCount lm of None \<Rightarrow> None | Some l \<Rightarrow> Some (take l (drop s xs))))"

definition wholeCount :: "jsnum \<Rightarrow> nat option" where
  "wholeCount n =
     (case n of
        Fin r \<Rightarrow> if 0 \<le> r \<and> r = of_int (floor r) then Some (nat (floor r)) else None
      | _ \<Rightarrow> None)"

definition students :: "db \<Rightarrow> (oid \<times> user) list" where
  "students d = filter (\<lambda>p. privilege (snd p) = ''student'') (userColl d)"

definition studentItem :: "db \<Rightarrow> oid \<times> user \<Rightarrow> doc" where
  "studentItem d p =
     populate d ''enrolledClasses'' classSelect (select userSelect (userDoc (fst p) (snd p)))"

definition studentsWithClasses :: "(jsnum \<Rightarrow> nat option) \<Rightarrow> env \<Rightarrow> pageQuery \<Rightarrow> db \<Rightarrow> result" where
  "studentsWithClasses toCount e q d =
     (let limit = effectiveLimit q;
          page = effectivePage q;
          skip = effectiveSkip q;
          t = [UserFindStudents skip limit, UserCountStudents]
      in if fails e (UserFindStudents skip limit) \<or> fails e UserCountStudents
           then reply 500 (Message ''Failed to fetch students'') d t
         else (case slice toCount skip limit (students d) of
                 None \<Rightarrow> reply 500 (Message ''Failed to fetch students'') d t
               | Some pg \<Rightarrow>
                   if fails e ClassPopulate
                     then reply 500 (Message ''Failed to fetch students'') d (t @ [ClassPopulate])
                   else reply 200
                          (PageJson (map (studentItem d) pg) (length (students d)) page limit)
                          d (t @ [ClassPopulate])))"

section \<open>A small academy to run the routes on\<close>

definition isValid24 :: "string \<Rightarrow> bool" where
  "isValid24 s = (length s = 24)"

definition noFaults :: env where
  "noFaults = \<lparr>fails = (\<lambda>c. False), clerkEmails = (\<lambda>s. [])\<rparr>"

definition annId :: oid where "annId = ''650000000000000000000a01''"
definition bobId :: oid where "bobId = ''650000000000000000000a02''"
definition level3Id :: oid where "level3Id = ''650000000000000000000c01''"

definition ann :: user where
  "ann = \<lparr>firstName = ''Ann'', lastName = ''Lee'', email = ''ann@x.org'',
          whatsapp = Some ''+15550001'', clerkId = ''user_ann'', gender = None,
          privilege = ''student'', enrolledClasses = [], creationDate = ''2025-01-01''\<rparr>"

definition bob :: user where
  "bob = \<lparr>firstName = ''Bob'', lastName = ''Ray'', email = ''bob@x.org'',
          whatsapp = None, clerkId = ''user_bob'', gender = None,
          privilege = ''admin'', enrolledClasses = [], creationDate = ''2025-01-02''\<rparr>"

definition cemId :: oid where "cemId = ''650000000000000000000a03''"

definition cem :: user where
  "cem = \<lparr>firstName = ''Cem'', lastName = ''Oz'', email = ''cem@x.org'',
          whatsapp = None, clerkId = ''user_cem'', gender = None,
          privilege = ''student'', enrolledClasses = [], creationDate = ''2025-01-03''\<rparr>"

definition level3 :: cls where
  "level3 = \<lparr>level = LevelNum 3, ageGroup = ''adult'', instructor = ''Cem'',
             schedule = [\<lparr>day = ''Mon'', startTime = ''18:00'', endTime = ''19:00''\<rparr>],
             isEnrollmentOpen = True, imageUrl = ''l3.png'', link = ''https://meet/l3'',
             roster = []\<rparr>"

definition academy :: db where
  "academy = \<lparr>userColl = [(annId, ann), (bobId, bob)], classColl = [(level3Id, level3)]\<rparr>"

text \<open>The same academy with Ann enrolled in the level 3 class, on both sides.\<close>

definition academyEnrolled :: db where
  "academyEnrolled =
     \<lparr>userColl = [(annId, ann\<lparr>enrolledClasses := [level3Id]\<rparr>), (bobId, bob)],
      classColl = [(level3Id, level3\<lparr>roster := [annId]\<rparr>)]\<rparr>"

text \<open>The academy with a second student, Cem, after Ann and Bob.\<close>

definition academyOfTwo :: db where
  "academyOfTwo = academy\<lparr>userColl := userColl academy @ [(cemId, cem)]\<rparr>"

text \<open>Fault plans: the environment in which exactly one boundary call throws.\<close>

definition bobLookupDown :: env where
  "bobLookupDown = \<lparr>fails = (\<lambda>c. c = UserFindById bobId), clerkEmails = (\<lambda>s. [])\<rparr>"

definition rosterWriteDown :: env where
  "rosterWriteDown =
     \<lparr>fails = (\<lambda>c. c = ClassAddToSetRoster level3Id annId), clerkEmails = (\<lambda>s. [])\<rparr>"

definition idpDeleteDown :: env where
  "idpDeleteDown = \<lparr>fails = (\<lambda>c. c = ClerkDeleteUser ''user_ann''), clerkEmails = (\<lambda>s. [])\<rparr>"

definition idpAddDown :: env where
  "idpAddDown =
     \<lparr>fails = (\<lambda>c. c = ClerkCreateEmailAddress ''user_ann'' ''ann@new.org'' True True),
      clerkEmails = (\<lambda>s. [(''idn_1'', ''ann@x.org'')])\<rparr>"

text \<open>Requests: an enroll request that carries no session, three update bodies, and the
  first page of the students list with no parameter set.\<close>

definition anonymousEnroll :: request where
  "anonymousEnroll = \<lparr>session = None, paramId = annId, bodyClassId = Some level3Id\<rparr>"

definition noUpdates :: updates where
  "noUpdates = \<lparr>u_firstName = None, u_lastName = None, u_email = None, u_whatsapp = None,
                u_gender = None, u_privilege = None\<rparr>"

definition newEmail :: updates where
  "newEmail = noUpdates\<lparr>u_email := Some ''ann@new.org''\<rparr>"

definition emptyEmail :: updates where
  "emptyEmail = noUpdates\<lparr>u_email := Some ''''\<rparr>"

definition firstPage :: pageQuery where
  "firstPage = \<lparr>limitN = NaN, pageN = NaN, levelParam = None, qParam = None\<rparr>"

text \<open>
  More queries: \<open>limit=10000&page=-3\<close>, \<open>limit=1&page=2\<close>, and, with no limit,
  \<open>page=9007199254740992\<close> (that is \<open>2 ^ 53\<close>), a page of \<open>2 ^ 1020\<close> (a double),
  and \<open>page=Infinity\<close>.
\<close>

definition clampedPage :: pageQuery where
  "clampedPage = firstPage\<lparr>limitN := Fin 10000, pageN := Fin (- 3)\<rparr>"

definition secondOfOne :: pageQuery where
  "secondOfOne = firstPage\<lparr>limitN := Fin 1, pageN := Fin 2\<rparr>"

definition hugePage :: pageQuery where
  "hugePage = firstPage\<lparr>pageN := Fin 9007199254740992\<rparr>"

definition overflowPage :: pageQuery where
  "overflowPage = firstPage\<lparr>pageN := Fin (2 ^ 1020)\<rparr>"

definition infinitePage :: pageQuery where
  "infinitePage = firstPage\<lparr>pageN := PosInf\<rparr>"

text \<open>The fields an item of the students list, and a class inside it, may carry.\<close>

definition itemKeys :: "string set" where
  "itemKeys = {''_id'', ''firstName'', ''lastName'', ''email'', ''privilege'', ''creationDate'',
               ''enrolledClasses''}"

definition classKeys :: "string set" where
  "classKeys = {''_id'', ''level'', ''ageGroup'', ''instructor'', ''schedule'',
                ''isEnrollmentOpen'', ''image''}"

text \<open>Ann's row of the students list, given what it shows as her classes, Cem's row, and
  the level 3 class as a row shows it.\<close>

definition annRow :: "json \<Rightarrow> doc" where
  "annRow classes =
     [(''_id'', JId annId), (''firstName'', JString ''Ann''), (''lastName'', JString ''Lee''),
      (''email'', JString ''ann@x.org''), (''privilege'', JString ''student''),
      (''enrolledClasses'', classes), (''creationDate'', JString ''2025-01-01'')]"

definition cemRow :: doc where
  "cemRow =
     [(''_id'', JId cemId), (''firstName'', JString ''Cem''), (''lastName'', JString ''Oz''),
      (''email'', JString ''cem@x.org''), (''privilege'', JString ''student''),
      (''enrolledClasses'', JArray []), (''creationDate'', JString ''2025-01-03'')]"

definition level3Item :: doc where
  "level3Item =
     [(''_id'', JId level3Id), (''level'', JNumber 3), (''ageGroup'', JString ''adult''),
      (''instructor'', JString ''Cem''),
      (''schedule'', JArray [JObject [(''day'', JString ''Mon''),
         (''startTime'', JString ''18:00''), (''endTime'', JString ''19:00'')]]),
      (''isEnrollmentOpen'', JBool True), (''image'', JString ''l3.png'')]"

section \<open>Facts about the store operations\<close>

subsection \<open>Updates by id, and the link under a pair of writes\<close>

lemma findById_updateById:
  "findById (updateById i f coll) j =
     (if j = i then map_option f (findById coll i) else findById coll j)"
  by (simp add: findById_def updateById_def map_of_map_entry split: option.splits)

lemma set_addToSet: "set (addToSet x xs) = insert x (set xs)"
  by (auto simp: addToSet_def)

lemma set_pull: "set (pull x xs) = set xs - {x}"
  by (auto simp: pull_def)

lemma distinct_addToSet: "distinct xs \<Longrightarrow> distinct (addToSet x xs)"
  by (simp add: addToSet_def)

lemma distinct_pull: "distinct xs \<Longrightarrow> distinct (pull x xs)"
  by (simp add: pull_def distinct_removeAll)

lemma consistent_add: "consistent d \<Longrightarrow> consistent (addRoster c i (addEnrolled i c d))"
  unfolding consistent_def linked_def addRoster_def addEnrolled_def
  by (auto simp: findById_updateById set_addToSet distinct_addToSet split: if_splits)

lemma consistent_pull: "consistent d \<Longrightarrow> consistent (pullRoster c i (pullEnrolled i c d))"
  unfolding consistent_def linked_def pullRoster_def pullEnrolled_def
  by (auto simp: findById_updateById set_pull distinct_pull split: if_splits)

lemma enroll_201:
  "status (enroll valid e i classId d) = 201 \<Longrightarrow>
     \<exists>c. classId = Some c \<and> store (enroll valid e i classId d) = addRoster c i (addEnrolled i c d)"
  by (auto simp: enroll_def enrollFailed_def reply_def split: if_splits option.splits)

lemma unenroll_201:
  "status (unenroll valid e i classId d) = 201 \<Longrightarrow>
     \<exists>c. classId = Some c \<and> store (unenroll valid e i classId d) = pullRoster c i (pullEnrolled i c d)"
  by (auto simp: unenroll_def unenrollFailed_def reply_def split: if_splits option.splits)

lemma applyOp_consistent:
  "consistent d \<Longrightarrow> status (applyOp valid e x d) = 201 \<Longrightarrow> consistent (store (applyOp valid e x d))"
  by (cases x) (auto dest!: enroll_201 unenroll_201 simp: consistent_add consistent_pull)

lemma runOps_consistent:
  "consistent d \<Longrightarrow> runOps valid ops d = (ss, d') \<Longrightarrow> \<forall>s\<in>set ss. s = 201 \<Longrightarrow> consistent d'"
proof (induction ops arbitrary: d ss)
  case Nil
  then show ?case by simp
next
  case (Cons p ops)
  obtain e x where p: "p = (e, x)" by (cases p)
  obtain ss' where r: "runOps valid ops (store (applyOp valid e x d)) = (ss', d')"
    and ss: "ss = status (applyOp valid e x d) # ss'"
    using Cons.prems(2) by (auto simp: p Let_def split: prod.splits)
  have "consistent (store (applyOp valid e x d))"
    using Cons.prems(1,3) ss by (intro applyOp_consistent) auto
  then show ?case using Cons.IH[OF _ r] Cons.prems(3) ss by auto
qed

subsection \<open>Runs on the academy\<close>

lemma ids_distinct [simp]:
  "annId \<noteq> bobId" "bobId \<noteq> annId" "isValid24 annId" "isValid24 bobId" "isValid24 level3Id"
  by (simp_all add: annId_def bobId_def level3Id_def isValid24_def)

lemma consistent_academy: "consistent academy"
  by (auto simp: consistent_def linked_def academy_def findById_def ann_def bob_def level3_def split: if_splits)

lemma enroll_ann: "enroll isValid24 noFaults annId (Some level3Id) academy
   = reply 201 (Message ''Enrolled successfully!'') academyEnrolled
       [UserFindById annId, ClassFindById (Some level3Id), UserAddToSetEnrolled annId level3Id,
                   ClassAddToSetRoster level3Id annId]"
  by (simp add: enroll_def noFaults_def academy_def academyEnrolled_def findById_def includes_id_def
     ann_def level3_def addRoster_def addEnrolled_def updateById_def addToSet_def)

lemma unenroll_ann: "unenroll isValid24 noFaults annId (Some level3Id) academyEnrolled
   = reply 201 (Message ''Successfully unenrolled'') academy
       [UserFindById annId, UserPullEnrolled annId level3Id, ClassPullRoster level3Id annId]"
  by (simp add: unenroll_def noFaults_def academy_def academyEnrolled_def findById_def includes_id_def
     ann_def level3_def pullRoster_def pullEnrolled_def updateById_def pull_def)

lemma run_example:
  "runOps isValid24 [(noFaults, Enroll annId (Some level3Id)), (noFaults, Unenroll annId (Some level3Id)),
      (noFaults, Enroll annId (Some level3Id))] academy = ([201, 201, 201], academyEnrolled)"
  by (simp add: enroll_ann unenroll_ann reply_def)

lemma find_ann [simp]: "findById (userColl academy) annId = Some ann"
  by (simp add: academy_def findById_def)

lemma me_ann: "findOneByClerkId (userColl academy) ''user_ann'' = Some (annId, ann)"
  by (simp add: findOneByClerkId_def academy_def ann_def)

lemma me_bob: "findOneByClerkId (userColl academy) ''user_bob'' = Some (bobId, bob)"
  by (simp add: findOneByClerkId_def academy_def ann_def bob_def)

lemma find_bob: "findById (userColl academy) bobId = Some bob"
  by (simp add: academy_def findById_def)

lemma find_SomeD: "find P xs = Some x \<Longrightarrow> P x"
  by (auto simp: find_Some_iff)

lemma enroll_roster_write_down:
  "enroll isValid24 rosterWriteDown annId (Some level3Id) academy
   = reply 500 (Message ''Error enrolling into class'')
       (academy\<lparr>userColl := [(annId, ann\<lparr>enrolledClasses := [level3Id]\<rparr>), (bobId, bob)]\<rparr>)
       [UserFindById annId, ClassFindById (Some level3Id), UserAddToSetEnrolled annId level3Id,
        ClassAddToSetRoster level3Id annId]"
  by (simp add: enroll_def enrollFailed_def rosterWriteDown_def academy_def findById_def includes_id_def
     ann_def level3_def addEnrolled_def updateById_def addToSet_def)

subsection \<open>The roster cascade of a deletion\<close>

lemma pull_idem: "pull i (pull i xs) = pull i xs"
  by (simp add: pull_def)

lemma userColl_pullFromRosters: "userColl (pullFromRosters e i cs d) = userColl d"
  by (induction cs arbitrary: d) (auto simp: pullRoster_def)

lemma findById_pullRoster:
  "findById (classColl (pullRoster c i d)) j =
     (if j = c then map_option (\<lambda>k. k\<lparr>roster := pull i (roster k)\<rparr>) (findById (classColl d) c)
      else findById (classColl d) j)"
  by (simp add: pullRoster_def findById_updateById)

lemma classColl_pullFromRosters:
  "\<not> list_ex (\<lambda>c. fails e (ClassPullRoster c i)) cs \<Longrightarrow>
   findById (classColl (pullFromRosters e i cs d)) j =
     (if j \<in> set cs then map_option (\<lambda>k. k\<lparr>roster := pull i (roster k)\<rparr>) (findById (classColl d) j)
      else findById (classColl d) j)"
proof (induction cs arbitrary: d)
  case Nil
  then show ?case by simp
next
  case (Cons c cs)
  then show ?case
    by (cases "findById (classColl d) j") (auto simp: findById_pullRoster pull_idem)
qed

lemma delete_idp_down:
  "deleteUser isValid24 idpDeleteDown annId academyEnrolled
   = reply 500 (Message ''Failed to delete user'')
       (academyEnrolled\<lparr>classColl := [(level3Id, level3\<lparr>roster := []\<rparr>)]\<rparr>)
       [UserFindById annId, ClassPullRoster level3Id annId, ClerkDeleteUser ''user_ann'']"
  by (simp add: deleteUser_def deleteFailed_def idpDeleteDown_def academyEnrolled_def findById_def
     ann_def level3_def pullRoster_def updateById_def pull_def Let_def)

lemma delete_no_faults:
  "deleteUser isValid24 noFaults annId academyEnrolled
   = reply 204 (Message ''User deleted successfully'')
       \<lparr>userColl = [(bobId, bob)], classColl = [(level3Id, level3\<lparr>roster := []\<rparr>)]\<rparr>
       [UserFindById annId, ClassPullRoster level3Id annId, ClerkDeleteUser ''user_ann'',
        UserFindByIdAndDelete annId]"
  by (simp add: deleteUser_def deleteFailed_def noFaults_def academyEnrolled_def findById_def
     ann_def level3_def pullRoster_def updateById_def pull_def deleteById_def Let_def)

subsection \<open>Rounding to a double\<close>

lemma toDouble_zero [simp]: "toDouble 0 = Fin 0"
  by (simp add: toDouble_def)

lemma roundHalfEven_int [simp]: "roundHalfEven (of_int k) = k"
  by (simp add: roundHalfEven_def)

lemma floor_log2_eq:
  assumes "2 powr of_int e \<le> \<bar>r\<bar>" and "\<bar>r\<bar> < 2 powr of_int (e + 1)"
  shows "\<lfloor>log 2 \<bar>r\<bar>\<rfloor> = e"
proof -
  have "0 < (2::real) powr of_int e" by simp
  then have pos: "0 < \<bar>r\<bar>" using assms(1) by linarith
  have "of_int e \<le> log 2 \<bar>r\<bar>" using assms(1) pos by (simp add: le_log_iff)
  moreover have "log 2 \<bar>r\<bar> < of_int (e + 1)" using assms(2) pos by (simp add: log_less_iff)
  ultimately show ?thesis by linarith
qed

lemma two_powr_nonneg: "0 \<le> k \<Longrightarrow> (2::real) powr real_of_int k = 2 ^ nat k"
  by (simp add: powr_real_of_int)

lemma two_powr_nonpos: "k \<le> 0 \<Longrightarrow> (2::real) powr real_of_int k = 1 / 2 ^ nat (- k)"
  by (cases "k = 0") (simp_all add: powr_real_of_int field_simps)

lemma two_powr_powi: "(2::real) powr real_of_int k = 2 powi k"
  by (rule powr_real_of_int') simp_all

lemma binaryExponent_log:
  assumes "0 < x"
  shows "binaryExponent x = \<lfloor>log 2 x\<rfloor>"
proof (cases "1 \<le> x")
  case True
  define m where "m = \<lfloor>x\<rfloor>"
  have m1: "1 \<le> m" using True unfolding m_def by simp
  then have m0: "0 < m" by simp
  define k where "k = bitlen m - 1"
  have k0: "0 \<le> k" using m1 unfolding k_def
    by (simp add: bitlen_alt_def zero_le_log_cancel_iff)
  have k1: "bitlen m = k + 1" unfolding k_def by simp
  from bitlen_bounds[OF m0] have lo: "2 ^ nat k \<le> m" and hi: "m < 2 ^ nat (k + 1)"
    unfolding k1 by simp_all
  have "real_of_int (2 ^ nat k) \<le> x" using lo unfolding m_def by (simp only: le_floor_iff)
  then have "2 powr of_int k \<le> x" using two_powr_nonneg[OF k0] by simp
  then have a: "2 powr of_int k \<le> \<bar>x\<bar>" using assms by simp
  have k0': "0 \<le> k + 1" using k0 by simp
  have "x < real_of_int (2 ^ nat (k + 1))" using hi unfolding m_def by (simp only: floor_less_iff)
  then have "x < 2 powr of_int (k + 1)" unfolding two_powr_nonneg[OF k0'] by simp
  then have b: "\<bar>x\<bar> < 2 powr of_int (k + 1)" using assms by simp
  have "\<lfloor>log 2 \<bar>x\<bar>\<rfloor> = k" using a b by (rule floor_log2_eq)
  then show ?thesis using True assms by (simp add: binaryExponent_def k_def m_def)
next
  case False
  define y where "y = 1 / x"
  have y1: "1 < y" using False assms unfolding y_def by simp
  define n where "n = \<lceil>y\<rceil> - 1"
  have n0: "0 < n" using y1 unfolding n_def by (simp add: less_ceiling_iff)
  define k where "k = bitlen n"
  have k1: "1 \<le> k" using n0 unfolding k_def by (simp add: bitlen_alt_def zero_le_log_cancel_iff)
  from bitlen_bounds[OF n0] have lo: "2 ^ nat (k - 1) \<le> n" and hi: "n < 2 ^ nat k"
    unfolding k_def by simp_all
  have "2 ^ nat (k - 1) < \<lceil>y\<rceil>" using lo unfolding n_def by simp
  then have ylo: "real_of_int (2 ^ nat (k - 1)) < y" by (simp only: less_ceiling_iff)
  have "\<lceil>y\<rceil> \<le> 2 ^ nat k" using hi unfolding n_def by simp
  then have yhi: "y \<le> real_of_int (2 ^ nat k)" by (simp only: ceiling_le_iff)
  have xy: "x = 1 / y" unfolding y_def by simp
  have ypos: "0 < y" using y1 by simp
  have kn: "- k \<le> 0" "- k + 1 \<le> 0" using k1 by simp_all
  have e1: "(2::real) powr of_int (- k) = 1 / 2 ^ nat k"
    using two_powr_nonpos[OF kn(1)] by simp
  have e2: "(2::real) powr of_int (- k + 1) = 1 / 2 ^ nat (k - 1)"
    using two_powr_nonpos[OF kn(2)] by simp
  have "1 / 2 ^ nat k \<le> x" unfolding xy using yhi ypos by (simp add: frac_le)
  then have a: "2 powr of_int (- k) \<le> \<bar>x\<bar>" unfolding e1 using assms by simp
  have "x < 1 / 2 ^ nat (k - 1)" unfolding xy using ylo ypos by (simp add: frac_less2)
  then have b: "\<bar>x\<bar> < 2 powr of_int (- k + 1)" unfolding e2 using assms by simp
  have "\<lfloor>log 2 \<bar>x\<bar>\<rfloor> = - k" using a b by (rule floor_log2_eq)
  then show ?thesis using False assms by (simp add: binaryExponent_def k_def n_def y_def)
qed

lemma toDouble_log:
  "toDouble r =
     (if r = 0 then Fin 0
      else let e = max \<lfloor>log 2 \<bar>r\<bar>\<rfloor> (- 1022);
               u = 2 powr of_int (e - 52);
               v = of_int (roundHalfEven (r / u)) * u
           in if overflowBound \<le> \<bar>v\<bar> then (if 0 < r then PosInf else NegInf) else Fin v)"
proof (cases "r = 0")
  case True
  then show ?thesis by (simp add: toDouble_def)
next
  case False
  then have "0 < \<bar>r\<bar>" by simp
  then have "binaryExponent \<bar>r\<bar> = \<lfloor>log 2 \<bar>r\<bar>\<rfloor>" by (rule binaryExponent_log)
  then show ?thesis unfolding toDouble_def two_powr_powi by simp
qed

lemma toDouble_at:
  assumes "2 powr of_int e \<le> \<bar>r\<bar>" and "\<bar>r\<bar> < 2 powr of_int (e + 1)" and "- 1022 \<le> e"
  shows "toDouble r =
     (let u = 2 powr of_int (e - 52); v = of_int (roundHalfEven (r / u)) * u
      in if overflowBound \<le> \<bar>v\<bar> then (if 0 < r then PosInf else NegInf) else Fin v)"
proof -
  have "0 < (2::real) powr of_int e" by simp
  then have "r \<noteq> 0" using assms(1) by auto
  then show ?thesis
    using floor_log2_eq[OF assms(1,2)] assms(3) by (simp add: toDouble_log Let_def max_def)
qed

lemma toDouble_int:
  fixes k :: int
  assumes "\<bar>k\<bar> < 2 ^ 53"
  shows "toDouble (of_int k) = Fin (of_int k)"
proof (cases "k = 0")
  case True
  then show ?thesis by (simp add: toDouble_def)
next
  case False
  define r :: real where "r = of_int k"
  define e where "e = \<lfloor>log 2 \<bar>r\<bar>\<rfloor>"
  have r1: "1 \<le> \<bar>r\<bar>" using False by (simp add: r_def)
  have r53: "\<bar>r\<bar> < 2 ^ 53" using assms unfolding r_def
    by (metis of_int_abs of_int_less_numeral_power_cancel_iff)
  have e0: "0 \<le> e" unfolding e_def using r1 by (simp add: zero_le_log_cancel_iff)
  have "log 2 \<bar>r\<bar> < 53" using r53 r1 by (simp add: log_less_iff)
  then have e52: "e \<le> 52" unfolding e_def by linarith
  define n where "n = nat (52 - e)"
  have u: "(2::real) powr of_int (e - 52) = 1 / 2 ^ n"
  proof -
    have "real_of_int (e - 52) = - real n" using e52 by (simp add: n_def)
    then have "(2::real) powr of_int (e - 52) = 2 powr (- real n)" by (simp only:)
    also have "\<dots> = 1 / 2 ^ n" by (simp add: powr_minus powr_realpow divide_simps)
    finally show ?thesis .
  qed
  have q: "r / (1 / 2 ^ n) = of_int (k * 2 ^ n)" by (simp add: r_def)
  have v: "of_int (roundHalfEven (r / (1 / 2 ^ n))) * (1 / 2 ^ n) = r"
    unfolding q roundHalfEven_int by (simp add: r_def)
  have nz: "r \<noteq> 0" using r1 by auto
  have mx: "max e (- 1022) = e" using e0 by simp
  have "(2::real) ^ 53 \<le> 2 ^ 1024" by (rule power_increasing) simp_all
  then have nov: "\<not> (overflowBound \<le> \<bar>r\<bar>)" using r53 unfolding overflowBound_def by linarith
  have "toDouble r = (if overflowBound \<le> \<bar>r\<bar> then (if 0 < r then PosInf else NegInf) else Fin r)"
    unfolding toDouble_log Let_def e_def[symmetric] mx u v using nz by simp
  then show ?thesis using nov by (simp add: r_def)
qed

lemma toDouble_900719925474099100:
  "toDouble (900719925474099100) = Fin 900719925474099072"
proof -
  have a: "2 powr of_int 59 \<le> \<bar>900719925474099100::real\<bar>" by (simp add: powr_numeral)
  have b: "\<bar>900719925474099100::real\<bar> < 2 powr of_int (59 + 1)" by (simp add: powr_numeral)
  have u: "2 powr of_int (59 - 52) = (128::real)" by (simp add: powr_numeral)
  have f: "roundHalfEven (900719925474099100 / 128) = 7036874417766399"
    by (simp add: roundHalfEven_def Let_def)
  have v: "real_of_int 7036874417766399 * 128 = 900719925474099072" by simp
  have "(900719925474099072::real) < 2 ^ 60" by simp
  also have "(2::real) ^ 60 \<le> 2 ^ 1024" by (rule power_increasing) simp_all
  finally have nov: "\<not> (overflowBound \<le> \<bar>900719925474099072::real\<bar>)"
    unfolding overflowBound_def by simp
  show ?thesis
    using toDouble_at[OF a b] nov unfolding Let_def u f v by simp
qed

lemma roundHalfEven_bounds: "\<lfloor>x\<rfloor> \<le> roundHalfEven x \<and> roundHalfEven x \<le> \<lfloor>x\<rfloor> + 1"
  by (simp add: roundHalfEven_def Let_def)

lemma roundHalfEven_ge_int: "of_int k \<le> x \<Longrightarrow> k \<le> roundHalfEven x"
  using roundHalfEven_bounds[of x] by (meson le_floor_iff order_trans)

lemma roundHalfEven_le_int: "x \<le> of_int k \<Longrightarrow> roundHalfEven x \<le> k"
proof (cases "x = of_int k")
  case True
  then show ?thesis by simp
next
  case False
  assume "x \<le> of_int k"
  with False have "x < of_int k" by simp
  then have "\<lfloor>x\<rfloor> < k" by (simp add: floor_less_iff)
  then show ?thesis using roundHalfEven_bounds[of x] by linarith
qed

lemma toDouble_overflow:
  assumes "overflowBound \<le> \<bar>r\<bar>"
  shows "toDouble r = (if 0 < r then PosInf else NegInf)"
proof -
  define e where "e = \<lfloor>log 2 \<bar>r\<bar>\<rfloor>"
  define u :: real where "u = 2 powr of_int (e - 52)"
  have big: "2 ^ 1024 \<le> \<bar>r\<bar>" using assms by (simp add: overflowBound_def)
  moreover have "(0::real) < 2 ^ 1024" by simp
  ultimately have pos: "0 < \<bar>r\<bar>" by linarith
  have "(1024::real) \<le> log 2 \<bar>r\<bar>" using big pos by (simp add: le_log_iff powr_numeral)
  then have e1024: "1024 \<le> e" unfolding e_def by (simp add: le_floor_iff)
  have ele: "2 powr of_int e \<le> \<bar>r\<bar>"
    using pos unfolding e_def by (simp add: le_log_iff[symmetric])
  have upos: "0 < u" by (simp add: u_def)
  have ue: "2 ^ 52 * u = 2 powr of_int e"
  proof -
    have a: "(2::real) powr 52 = 2 ^ 52" by (simp add: powr_numeral)
    have "2 powr of_int e = (2::real) powr (52 + of_int (e - 52))" by simp
    also have "\<dots> = 2 powr 52 * 2 powr of_int (e - 52)" by (rule powr_add)
    finally show ?thesis unfolding u_def a by simp
  qed
  have x52: "2 ^ 52 \<le> \<bar>r / u\<bar>"
  proof -
    have "2 ^ 52 * u \<le> \<bar>r\<bar>" using ue ele by simp
    then show ?thesis using upos by (simp add: pos_le_divide_eq)
  qed
  have m52: "2 ^ 52 \<le> \<bar>roundHalfEven (r / u)\<bar>"
  proof (cases "0 \<le> r / u")
    case True
    then have "of_int (2 ^ 52) \<le> r / u" using x52 by simp
    then have "2 ^ 52 \<le> roundHalfEven (r / u)" by (rule roundHalfEven_ge_int)
    then show ?thesis by simp
  next
    case False
    then have "r / u \<le> of_int (- (2 ^ 52))" using x52 by simp
    then have "roundHalfEven (r / u) \<le> - (2 ^ 52)" by (rule roundHalfEven_le_int)
    then show ?thesis by simp
  qed
  have "2 powr of_int e = 2 ^ 52 * u" using ue by simp
  also have "\<dots> \<le> \<bar>of_int (roundHalfEven (r / u))\<bar> * u"
  proof -
    have "(2::real) ^ 52 \<le> of_int \<bar>roundHalfEven (r / u)\<bar>"
      using m52 by (metis of_int_le_iff of_int_numeral of_int_power)
    then show ?thesis using upos by (simp add: mult_right_mono)
  qed
  also have "\<dots> = \<bar>of_int (roundHalfEven (r / u)) * u\<bar>" using upos by (simp add: abs_mult)
  finally have v: "2 powr of_int e \<le> \<bar>of_int (roundHalfEven (r / u)) * u\<bar>" .
  have p1024: "(2::real) ^ 1024 = 2 powr 1024" by (simp add: powr_numeral)
  have "(1024::real) \<le> of_int e" using e1024 by simp
  then have "(2::real) powr 1024 \<le> 2 powr of_int e" by (rule powr_mono) simp
  then have ov: "overflowBound \<le> \<bar>of_int (roundHalfEven (r / u)) * u\<bar>"
    using v unfolding overflowBound_def p1024 by linarith
  have nz: "r \<noteq> 0" using pos by auto
  have mx: "max e (- 1022) = e" using e1024 by simp
  show ?thesis
    unfolding toDouble_log Let_def e_def[symmetric] mx u_def[symmetric] using nz ov by simp
qed

lemma toDouble_below_2_1020: "toDouble (2 ^ 1020 - 1) = Fin (2 ^ 1020)"
proof -
  have a: "2 powr of_int 1019 \<le> \<bar>2 ^ 1020 - 1 :: real\<bar>" by (simp add: powr_numeral)
  have b: "\<bar>2 ^ 1020 - 1 :: real\<bar> < 2 powr of_int (1019 + 1)" by (simp add: powr_numeral)
  have u: "2 powr of_int (1019 - 52) = (2 ^ 967 :: real)" by (simp add: powr_numeral)
  have f: "roundHalfEven ((2 ^ 1020 - 1) / 2 ^ 967) = 2 ^ 53"
    by (simp add: roundHalfEven_def Let_def)
  have v: "real_of_int (2 ^ 53) * 2 ^ 967 = 2 ^ 1020" by simp
  have nov: "\<not> (overflowBound \<le> \<bar>2 ^ 1020 :: real\<bar>)"
    unfolding overflowBound_def by simp
  show ?thesis
    using toDouble_at[OF a b] nov unfolding Let_def u f v by simp
qed

subsection \<open>Pagination and projection\<close>

lemma effectiveLimit_cases:
  "\<exists>r. effectiveLimit q = Fin r \<and> 1 \<le> r \<and> r \<le> 200"
  by (cases "limitN q") (auto simp: effectiveLimit_def math_max_def math_min_def js_or_def)

lemma effectivePage_cases:
  "effectivePage q = PosInf \<or> (\<exists>r. effectivePage q = Fin r \<and> 1 \<le> r)"
  by (cases "pageN q") (auto simp: effectivePage_def math_max_def js_or_def)

lemma userSelect_words [simp]:
  "splitWords [] userSelect
     = [''firstName'', ''lastName'', ''email'', ''privilege'', ''enrolledClasses'', ''creationDate'']"
  by (simp add: userSelect_def)

lemma classSelect_words [simp]:
  "splitWords [] classSelect
     = [''level'', ''ageGroup'', ''instructor'', ''schedule'', ''isEnrollmentOpen'', ''image'']"
  by (simp add: classSelect_def)

lemma keys_select_user: "fst ` set (select userSelect dc) \<subseteq> itemKeys"
  by (auto simp: select_def itemKeys_def)

lemma keys_select_class: "fst ` set (select classSelect dc) \<subseteq> classKeys"
  by (auto simp: select_def classKeys_def)

lemma keys_populate: "map fst (populate d path sel dc) = map fst dc"
  by (induction dc) (auto simp: populate_def)

lemma populatedClass_keys:
  "populatedClass d classSelect v = Some ob \<Longrightarrow> \<exists>fs. ob = JObject fs \<and> fst ` set fs \<subseteq> classKeys"
  using keys_select_class
  by (auto simp: populatedClass_def split: option.splits)

lemma in_map_filterD: "ob \<in> set (List.map_filter f xs) \<Longrightarrow> \<exists>x\<in>set xs. f x = Some ob"
  by (induction xs) (auto simp: List.map_filter_simps split: option.splits)

lemma studentItem_keys: "fst ` set (studentItem d p) \<subseteq> itemKeys"
proof -
  have "fst ` set (studentItem d p) = set (map fst (studentItem d p))" by simp
  also have "\<dots> = fst ` set (select userSelect (userDoc (fst p) (snd p)))"
    by (simp add: studentItem_def keys_populate)
  finally show ?thesis using keys_select_user by simp
qed

lemma enrolled_value:
  "(''enrolledClasses'', v) \<in> set (select userSelect (userDoc i u)) \<Longrightarrow>
     v = JArray (map JId (enrolledClasses u))"
  by (auto simp: select_def userDoc_def optField_def split: option.splits)

lemma studentItem_classes:
  assumes "(''enrolledClasses'', v) \<in> set (studentItem d p)"
  shows "\<exists>obs. v = JArray obs \<and> (\<forall>ob\<in>set obs. \<exists>fs. ob = JObject fs \<and> fst ` set fs \<subseteq> classKeys)"
proof -
  from assms obtain w where w: "(''enrolledClasses'', w) \<in> set (select userSelect (userDoc (fst p) (snd p)))"
    and v: "v = populateValue d classSelect w"
    by (auto simp: studentItem_def populate_def split: if_splits)
  have "w = JArray (map JId (enrolledClasses (snd p)))" using enrolled_value[OF w] .
  then have "v = JArray (List.map_filter (populatedClass d classSelect) (map JId (enrolledClasses (snd p))))"
    using v by (simp add: populateValue_def)
  moreover have "\<forall>ob\<in>set (List.map_filter (populatedClass d classSelect) (map JId (enrolledClasses (snd p)))).
      \<exists>fs. ob = JObject fs \<and> fst ` set fs \<subseteq> classKeys"
    by (blast dest: in_map_filterD populatedClass_keys)
  ultimately show ?thesis by blast
qed

lemma page_items:
  "body (studentsWithClasses toCount e q d) = PageJson items tot pg lm \<Longrightarrow>
     \<exists>ps. items = map (studentItem d) ps"
  by (auto simp: studentsWithClasses_def reply_def Let_def split: if_splits option.splits)

lemma wholeCount_simps [simp]: "wholeCount (Fin 0) = Some 0" "wholeCount (Fin 100) = Some 100"
  by (simp_all add: wholeCount_def)

lemma firstPage_guards [simp]:
  "effectiveLimit (firstPage\<lparr>levelParam := l\<rparr>) = Fin 100"
  "effectivePage (firstPage\<lparr>levelParam := l\<rparr>) = Fin 1"
  "effectiveSkip (firstPage\<lparr>levelParam := l\<rparr>) = Fin 0"
  by (simp_all add: effectiveSkip_def effectiveLimit_def effectivePage_def firstPage_def
      math_max_def math_min_def js_or_def js_sub_def)

lemma students_academy: "students academy = [(annId, ann)]"
  by (simp add: students_def academy_def ann_def bob_def)

lemma select_userDoc_ann:
  "select userSelect (userDoc annId (ann\<lparr>enrolledClasses := cs\<rparr>)) = annRow (JArray (map JId cs))"
  by (simp add: select_def userDoc_def optField_def ann_def annRow_def)

lemma populatedClass_level3:
  "populatedClass academyEnrolled classSelect (JId level3Id) = Some (JObject level3Item)"
  by (simp add: populatedClass_def idOf_def academyEnrolled_def findById_def)
     (simp add: select_def classDoc_def levelJson_def slotJson_def level3_def level3Item_def)

lemma studentItem_ann: "studentItem academy (annId, ann) = annRow (JArray [])"
  using select_userDoc_ann[of "[]"]
  by (simp add: studentItem_def ann_def)
     (simp add: annRow_def populate_def populateValue_def List.map_filter_simps)

lemma studentItem_ann_enrolled:
  "studentItem academyEnrolled (annId, ann\<lparr>enrolledClasses := [level3Id]\<rparr>)
     = annRow (JArray [JObject level3Item])"
  by (simp add: studentItem_def select_userDoc_ann)
     (simp add: annRow_def populate_def populateValue_def List.map_filter_simps
        populatedClass_level3)

lemma students_academyEnrolled:
  "students academyEnrolled = [(annId, ann\<lparr>enrolledClasses := [level3Id]\<rparr>)]"
  by (simp add: students_def academyEnrolled_def ann_def bob_def)

lemma first_page_academy:
  "studentsWithClasses wholeCount noFaults (firstPage\<lparr>levelParam := l\<rparr>) academy
     = reply 200 (PageJson [annRow (JArray [])] 1 (Fin 1) (Fin 100)) academy
         [UserFindStudents (Fin 0) (Fin 100), UserCountStudents, ClassPopulate]"
  by (simp add: studentsWithClasses_def Let_def slice_def noFaults_def students_academy
      studentItem_ann)

lemma first_page_academyEnrolled:
  "studentsWithClasses wholeCount noFaults (firstPage\<lparr>levelParam := l\<rparr>) academyEnrolled
     = reply 200 (PageJson [annRow (JArray [JObject level3Item])] 1 (Fin 1) (Fin 100))
         academyEnrolled [UserFindStudents (Fin 0) (Fin 100), UserCountStudents, ClassPopulate]"
  by (simp add: studentsWithClasses_def Let_def slice_def noFaults_def students_academyEnrolled
      studentItem_ann_enrolled)

lemma toDouble_one [simp]: "toDouble 1 = Fin 1"
  using toDouble_int[of 1] by simp

lemma effectivePage_ge: "js_le (Fin 1) (effectivePage q)"
  using effectivePage_cases[of q] by auto

lemma skip_whole:
  assumes p: "effectivePage q = Fin (of_int n)" and l: "effectiveLimit q = Fin (of_int m)"
    and b: "(n - 1) * m < 2 ^ 53"
  shows "effectiveSkip q = Fin (of_int ((n - 1) * m))"
proof -
  have n1: "1 \<le> n" using effectivePage_ge[of q] unfolding p by simp
  obtain r where "effectiveLimit q = Fin r" "1 \<le> r" using effectiveLimit_cases[of q] by blast
  then have m1: "1 \<le> m" unfolding l by simp
  have "n - 1 \<le> (n - 1) * m" using n1 m1 by (simp add: mult_le_cancel_left1)
  then have a: "\<bar>n - 1\<bar> < 2 ^ 53" using b n1 by linarith
  have "0 \<le> (n - 1) * m" using n1 m1 by simp
  then have c: "\<bar>(n - 1) * m\<bar> < 2 ^ 53" using b by linarith
  have "js_sub (Fin (of_int n)) (Fin 1) = toDouble (of_int (n - 1))"
    by (simp add: js_sub_def)
  also have "\<dots> = Fin (of_int (n - 1))" using a by (rule toDouble_int)
  finally have s: "js_sub (Fin (of_int n)) (Fin 1) = Fin (of_int (n - 1))" .
  have "js_mul (Fin (of_int (n - 1))) (Fin (of_int m)) = toDouble (of_int ((n - 1) * m))"
    by simp
  also have "\<dots> = Fin (of_int ((n - 1) * m))" using c by (rule toDouble_int)
  finally show ?thesis unfolding effectiveSkip_def p l s .
qed

lemma wholeCount_more [simp]: "wholeCount (Fin 1) = Some 1" "wholeCount (Fin 200) = Some 200"
  by (simp_all add: wholeCount_def)

lemma clampedPage_guards:
  "effectiveLimit clampedPage = Fin 200" "effectivePage clampedPage = Fin 1"
  "effectiveSkip clampedPage = Fin 0"
  by (simp_all add: effectiveSkip_def effectiveLimit_def effectivePage_def clampedPage_def
      firstPage_def math_max_def math_min_def js_or_def js_sub_def)

lemma secondOfOne_guards:
  "effectiveLimit secondOfOne = Fin 1" "effectivePage secondOfOne = Fin 2"
  "effectiveSkip secondOfOne = Fin 1"
  by (simp_all add: effectiveSkip_def effectiveLimit_def effectivePage_def secondOfOne_def
      firstPage_def math_max_def math_min_def js_or_def js_sub_def)

lemma hugePage_guards:
  "effectiveLimit hugePage = Fin 100" "effectivePage hugePage = Fin 9007199254740992"
  by (simp_all add: effectiveLimit_def effectivePage_def hugePage_def
      firstPage_def math_max_def math_min_def js_or_def)

lemma hugePage_skip: "effectiveSkip hugePage = Fin 900719925474099072"
proof -
  have "js_sub (Fin 9007199254740992) (Fin 1) = toDouble 9007199254740991"
    by (simp add: js_sub_def)
  also have "\<dots> = Fin 9007199254740991" using toDouble_int[of 9007199254740991] by simp
  finally have s: "js_sub (Fin 9007199254740992) (Fin 1) = Fin 9007199254740991" .
  have "js_mul (Fin 9007199254740991) (Fin 100) = toDouble 900719925474099100" by simp
  then show ?thesis
    unfolding effectiveSkip_def hugePage_guards s
    by (simp only: toDouble_900719925474099100)
qed

lemma students_academyOfTwo: "students academyOfTwo = [(annId, ann), (cemId, cem)]"
  by (simp add: students_def academyOfTwo_def academy_def ann_def bob_def cem_def)

lemma studentItem_cem: "studentItem academyOfTwo (cemId, cem) = cemRow"
  by (simp add: studentItem_def select_def userDoc_def optField_def cem_def cemRow_def
        populate_def populateValue_def List.map_filter_simps)

lemma page_clamped:
  "studentsWithClasses wholeCount noFaults clampedPage academy
     = reply 200 (PageJson [annRow (JArray [])] 1 (Fin 1) (Fin 200)) academy
         [UserFindStudents (Fin 0) (Fin 200), UserCountStudents, ClassPopulate]"
  by (simp add: studentsWithClasses_def Let_def slice_def noFaults_def students_academy
      studentItem_ann clampedPage_guards)

lemma page_second:
  "studentsWithClasses wholeCount noFaults secondOfOne academyOfTwo
     = reply 200 (PageJson [cemRow] 2 (Fin 2) (Fin 1)) academyOfTwo
         [UserFindStudents (Fin 1) (Fin 1), UserCountStudents, ClassPopulate]"
  by (simp add: studentsWithClasses_def Let_def slice_def noFaults_def students_academyOfTwo
      studentItem_cem secondOfOne_guards numeral_2_eq_2)

lemma overflowPage_guards:
  "effectiveLimit overflowPage = Fin 100" "effectivePage overflowPage = Fin (2 ^ 1020)"
  by (simp_all add: effectiveLimit_def effectivePage_def overflowPage_def
      firstPage_def math_max_def math_min_def js_or_def)

lemma overflowPage_skip: "effectiveSkip overflowPage = PosInf"
proof -
  have "js_sub (Fin (2 ^ 1020)) (Fin 1) = toDouble (2 ^ 1020 - 1)"
    by (simp add: js_sub_def)
  then have s: "js_sub (Fin (2 ^ 1020)) (Fin 1) = Fin (2 ^ 1020)"
    by (simp only: toDouble_below_2_1020)
  have "overflowBound \<le> \<bar>2 ^ 1020 * 100 :: real\<bar>" by (simp add: overflowBound_def)
  then have "toDouble (2 ^ 1020 * 100) = PosInf" by (simp add: toDouble_overflow)
  then have m: "js_mul (Fin (2 ^ 1020)) (Fin 100) = PosInf" by (simp only: js_mul.simps)
  show ?thesis unfolding effectiveSkip_def overflowPage_guards s m ..
qed

lemma page_overflow:
  "status (studentsWithClasses wholeCount noFaults overflowPage academy) = 500"
  by (simp add: studentsWithClasses_def Let_def slice_def noFaults_def overflowPage_skip
      wholeCount_def reply_def)

lemma infinitePage_guards:
  "effectiveLimit infinitePage = Fin 100" "effectivePage infinitePage = PosInf"
  by (simp_all add: effectiveLimit_def effectivePage_def infinitePage_def
      firstPage_def math_max_def math_min_def js_or_def)

lemma skip_infinite:
  assumes "effectivePage q = PosInf"
  shows "effectiveSkip q = PosInf"
proof -
  obtain r where "effectiveLimit q = Fin r" "1 \<le> r" using effectiveLimit_cases[of q] by blast
  then show ?thesis using assms by (simp add: effectiveSkip_def js_sub_def)
qed

section \<open>The level filter of the students list\<close>

text \<open>
  C1. The claim: with a \<open>level\<close> parameter, every student of \<open>items\<close> has an enrolled
  class of that level and \<open>total\<close> counts the matching students only. The handler never
  reads the parameter. Run with \<open>level=3\<close> on the academy, where Ann is the only student
  and has no class at all: Ann is in \<open>items\<close>, with an empty \<open>enrolledClasses\<close>, and
  \<open>total\<close> is 1.
\<close>

theorem level_filter_ignored:
  "body (studentsWithClasses wholeCount noFaults (firstPage\<lparr>levelParam := Some ''3''\<rparr>) academy)
     = PageJson [annRow (JArray [])] 1 (Fin 1) (Fin 100)
   \<and> (''enrolledClasses'', JArray []) \<in> set (annRow (JArray []))"
  by (simp add: first_page_academy reply_def) (simp add: annRow_def)

section \<open>Enroll, unenroll and the session\<close>

text \<open>
  C2, as the claim states it, fails: a request that carries no session at all, for Ann and
  the open level 3 class, is answered 201, and the class's roster, empty before, lists
  Ann afterwards.
\<close>

theorem enroll_session_counterexample:
  "session anonymousEnroll = None
   \<and> status (putEnroll isValid24 noFaults anonymousEnroll academy) = 201
   \<and> store (putEnroll isValid24 noFaults anonymousEnroll academy) = academyEnrolled
   \<and> map_option roster (findById (classColl academy) level3Id) = Some []
   \<and> map_option roster (findById (classColl academyEnrolled) level3Id) = Some [annId]"
  by (simp add: putEnroll_def anonymousEnroll_def enroll_ann reply_def)
     (simp add: academy_def academyEnrolled_def findById_def level3_def)

text \<open>
  C2, amended. The two routes do not check the session: the response and the resulting
  store are the same whatever session the request carries. So a request without a session
  that passes the handler's own checks (well-formed ids, a user not yet enrolled, an open
  class, no call that throws) is answered 201, and the class is added to the user's
  enrolled classes and the user to the class's roster.
\<close>

theorem enroll_without_session:
  assumes "valid (paramId r)" and "bodyClassId r = Some c" and "valid c"
    and "findById (userColl d) (paramId r) = Some u" and "c \<notin> set (enrolledClasses u)"
    and "findById (classColl d) c = Some k" and "isEnrollmentOpen k"
    and "\<not> fails e (UserFindById (paramId r))" and "\<not> fails e (ClassFindById (Some c))"
    and "\<not> fails e (UserAddToSetEnrolled (paramId r) c)"
    and "\<not> fails e (ClassAddToSetRoster c (paramId r))"
  shows "putEnroll valid e (r\<lparr>session := s\<rparr>) d = putEnroll valid e r d
         \<and> putUnenroll valid e (r\<lparr>session := s\<rparr>) d = putUnenroll valid e r d
         \<and> status (putEnroll valid e (r\<lparr>session := None\<rparr>) d) = 201
         \<and> store (putEnroll valid e (r\<lparr>session := None\<rparr>) d)
             = addRoster c (paramId r) (addEnrolled (paramId r) c d)"
  using assms
  by (simp add: putEnroll_def putUnenroll_def enroll_def includes_id_def reply_def)

theorem enroll_without_session_witness:
  "isValid24 (paramId anonymousEnroll) \<and> bodyClassId anonymousEnroll = Some level3Id
   \<and> isValid24 level3Id
   \<and> findById (userColl academy) (paramId anonymousEnroll) = Some ann
   \<and> level3Id \<notin> set (enrolledClasses ann)
   \<and> findById (classColl academy) level3Id = Some level3 \<and> isEnrollmentOpen level3
   \<and> status (putEnroll isValid24 noFaults (anonymousEnroll\<lparr>session := None\<rparr>) academy) = 201
   \<and> putEnroll isValid24 noFaults (anonymousEnroll\<lparr>session := Some ''user_bob''\<rparr>) academy
       = putEnroll isValid24 noFaults anonymousEnroll academy"
proof -
  have a: "isValid24 (paramId anonymousEnroll)" by (simp add: anonymousEnroll_def)
  have b: "bodyClassId anonymousEnroll = Some level3Id" by (simp add: anonymousEnroll_def)
  have c: "isValid24 level3Id" by simp
  have d: "findById (userColl academy) (paramId anonymousEnroll) = Some ann"
    by (simp add: anonymousEnroll_def)
  have e: "level3Id \<notin> set (enrolledClasses ann)" by (simp add: ann_def)
  have f: "findById (classColl academy) level3Id = Some level3"
    by (simp add: academy_def findById_def)
  have g: "isEnrollmentOpen level3" by (simp add: level3_def)
  have h: "\<not> fails noFaults (UserFindById (paramId anonymousEnroll))"
    "\<not> fails noFaults (ClassFindById (Some level3Id))"
    "\<not> fails noFaults (UserAddToSetEnrolled (paramId anonymousEnroll) level3Id)"
    "\<not> fails noFaults (ClassAddToSetRoster level3Id (paramId anonymousEnroll))"
    by (simp_all add: noFaults_def)
  show ?thesis
    using enroll_without_session[where valid = isValid24 and s = "Some ''user_bob''",
        OF a b c d e f g h] a b c d e f g
    by simp
qed

section \<open>The email mirror of PUT /user/:id\<close>

text \<open>
  C3, as the claim states it, fails: the body \<open>{email: ""}\<close> differs from Ann's stored
  email, yet the handler's guard (\<open>updates.email &&\<close>) skips the IdP, and the local write
  is issued with no IdP add before it.
\<close>

theorem email_mirror_counterexample:
  "u_email emptyEmail = Some '''' \<and> '''' \<noteq> email ann
   \<and> findById (userColl academy) annId = Some ann
   \<and> trace (putUser isValid24 noFaults annId emptyEmail academy)
        = [UserFindById annId, UserFindByIdAndUpdate annId emptyEmail]"
  by (simp add: putUser_def emailChange_def localUpdate_def updateFailed_def reply_def noFaults_def
      emptyEmail_def noUpdates_def Let_def) (simp add: ann_def)

text \<open>
  C3, amended. When the body carries a non-empty email that differs from the stored one,
  the first call after the lookup of the user is the IdP add of that address as a verified
  primary, so it comes before the old address's delete and before any local write; and if
  the add throws, the handler answers 500, issues no other call and leaves the store,
  the user's email included, as it was.
\<close>

theorem email_mirror_order:
  assumes "valid i" and "\<not> fails e (UserFindById i)"
    and "findById (userColl d) i = Some orig"
    and "u_email up = Some em" and "em \<noteq> []" and "em \<noteq> email orig"
  shows "(\<exists>t. trace (putUser valid e i up d)
               = [UserFindById i, ClerkCreateEmailAddress (clerkId orig) em True True] @ t)
         \<and> (if fails e (ClerkCreateEmailAddress (clerkId orig) em True True)
              then status (putUser valid e i up d) = 500
                 \<and> body (putUser valid e i up d) = Message ''Failed to update user''
                 \<and> store (putUser valid e i up d) = d
                 \<and> trace (putUser valid e i up d)
                     = [UserFindById i, ClerkCreateEmailAddress (clerkId orig) em True True]
              else ClerkGetUser (clerkId orig) \<in> set (trace (putUser valid e i up d)))"
  using assms
  by (auto simp: putUser_def emailChange_def localUpdate_def updateFailed_def reply_def Let_def
      split: if_splits option.splits)

theorem email_mirror_order_witness:
  "isValid24 annId \<and> \<not> fails idpAddDown (UserFindById annId)
   \<and> findById (userColl academy) annId = Some ann
   \<and> u_email newEmail = Some ''ann@new.org'' \<and> ''ann@new.org'' \<noteq> []
   \<and> ''ann@new.org'' \<noteq> email ann
   \<and> fails idpAddDown (ClerkCreateEmailAddress (clerkId ann) ''ann@new.org'' True True)
   \<and> status (putUser isValid24 idpAddDown annId newEmail academy) = 500
   \<and> store (putUser isValid24 idpAddDown annId newEmail academy) = academy"
proof -
  have a: "isValid24 annId" by simp
  have b: "\<not> fails idpAddDown (UserFindById annId)" by (simp add: idpAddDown_def)
  have c: "u_email newEmail = Some ''ann@new.org''" by (simp add: newEmail_def)
  have d: "''ann@new.org'' \<noteq> []" by simp
  have e: "''ann@new.org'' \<noteq> email ann" by (simp add: ann_def)
  have f: "fails idpAddDown (ClerkCreateEmailAddress (clerkId ann) ''ann@new.org'' True True)"
    by (simp add: idpAddDown_def ann_def)
  show ?thesis
    using email_mirror_order[where valid = isValid24, OF a b find_ann c d e] a b c d e f
    by simp
qed

section \<open>User deletion\<close>

text \<open>
  C4, as the claim states it, fails: Ann is enrolled in the level 3 class and the IdP
  refuses to delete her. The handler answers 500 and Ann's record stays, but the roster of
  the class, which listed her before the request, no longer does: the rosters are pulled
  before the IdP is called.
\<close>

theorem delete_abort_counterexample:
  "fails idpDeleteDown (ClerkDeleteUser (clerkId ann))
   \<and> ClerkDeleteUser (clerkId ann)
        \<in> set (trace (deleteUser isValid24 idpDeleteDown annId academyEnrolled))
   \<and> status (deleteUser isValid24 idpDeleteDown annId academyEnrolled) = 500
   \<and> map_option roster (findById (classColl academyEnrolled) level3Id) = Some [annId]
   \<and> map_option roster
        (findById (classColl (store (deleteUser isValid24 idpDeleteDown annId academyEnrolled)))
           level3Id) = Some []"
  by (simp add: delete_idp_down reply_def)
     (simp add: idpDeleteDown_def academyEnrolled_def findById_def ann_def level3_def)

text \<open>
  C4, amended. The local delete is only ever issued right after an IdP delete that
  succeeded. When the IdP delete throws, the handler answers 500 and issues no local
  delete: the user collection is unchanged, so the record still exists; by then the user's
  id has been pulled from the roster of each of the user's enrolled classes, and every
  other class is as it was.
\<close>

theorem delete_idp_before_local:
  "(UserFindByIdAndDelete j \<in> set (trace (deleteUser valid e i d)) \<longrightarrow>
      (\<exists>u t. findById (userColl d) i = Some u \<and> j = i
          \<and> \<not> fails e (ClerkDeleteUser (clerkId u))
          \<and> trace (deleteUser valid e i d)
              = t @ [ClerkDeleteUser (clerkId u), UserFindByIdAndDelete i]))
   \<and> (ClerkDeleteUser k \<in> set (trace (deleteUser valid e i d)) \<and> fails e (ClerkDeleteUser k) \<longrightarrow>
      status (deleteUser valid e i d) = 500
      \<and> body (deleteUser valid e i d) = Message ''Failed to delete user''
      \<and> userColl (store (deleteUser valid e i d)) = userColl d
      \<and> (\<forall>x. UserFindByIdAndDelete x \<notin> set (trace (deleteUser valid e i d)))
      \<and> (\<exists>u. findById (userColl d) i = Some u \<and> k = clerkId u
           \<and> (\<forall>c. findById (classColl (store (deleteUser valid e i d))) c =
                 (if c \<in> set (enrolledClasses u)
                  then map_option (\<lambda>x. x\<lparr>roster := pull i (roster x)\<rparr>) (findById (classColl d) c)
                  else findById (classColl d) c))))"
  by (auto simp: deleteUser_def deleteFailed_def reply_def Let_def userColl_pullFromRosters
      classColl_pullFromRosters split: if_splits option.splits)

theorem delete_idp_before_local_witness:
  "UserFindByIdAndDelete annId \<in> set (trace (deleteUser isValid24 noFaults annId academyEnrolled))
   \<and> (\<exists>u t. findById (userColl academyEnrolled) annId = Some u
          \<and> \<not> fails noFaults (ClerkDeleteUser (clerkId u))
          \<and> trace (deleteUser isValid24 noFaults annId academyEnrolled)
              = t @ [ClerkDeleteUser (clerkId u), UserFindByIdAndDelete annId])
   \<and> ClerkDeleteUser ''user_ann''
        \<in> set (trace (deleteUser isValid24 idpDeleteDown annId academyEnrolled))
   \<and> fails idpDeleteDown (ClerkDeleteUser ''user_ann'')
   \<and> status (deleteUser isValid24 idpDeleteDown annId academyEnrolled) = 500
   \<and> userColl (store (deleteUser isValid24 idpDeleteDown annId academyEnrolled))
       = userColl academyEnrolled"
proof -
  have a: "UserFindByIdAndDelete annId
             \<in> set (trace (deleteUser isValid24 noFaults annId academyEnrolled))"
    by (simp add: delete_no_faults reply_def)
  have b: "ClerkDeleteUser ''user_ann''
             \<in> set (trace (deleteUser isValid24 idpDeleteDown annId academyEnrolled))"
    by (simp add: delete_idp_down reply_def)
  have c: "fails idpDeleteDown (ClerkDeleteUser ''user_ann'')" by (simp add: idpDeleteDown_def)
  show ?thesis
    using delete_idp_before_local[where j = annId and valid = isValid24 and e = noFaults
          and i = annId and d = academyEnrolled and k = "''user_ann''"]
      delete_idp_before_local[where j = annId and valid = isValid24 and e = idpDeleteDown
          and i = annId and d = academyEnrolled and k = "''user_ann''"]
      a b c
    by simp
qed

section \<open>The two writes of enroll\<close>

text \<open>
  C5, as the claim states it, fails: let the roster write for Ann and the level 3 class
  throw. It was issued after the write to Ann's enrolled classes, and the handler answers
  500; but no \<open>$pull\<close> of the class from Ann's enrolled classes is among the calls, and
  the class stays there.
\<close>

theorem enroll_compensation_counterexample:
  "fails rosterWriteDown (ClassAddToSetRoster level3Id annId)
   \<and> ClassAddToSetRoster level3Id annId
        \<in> set (trace (enroll isValid24 rosterWriteDown annId (Some level3Id) academy))
   \<and> UserPullEnrolled annId level3Id
        \<notin> set (trace (enroll isValid24 rosterWriteDown annId (Some level3Id) academy))
   \<and> map_option enrolledClasses
        (findById (userColl (store (enroll isValid24 rosterWriteDown annId (Some level3Id) academy)))
           annId) = Some [level3Id]"
  by (simp add: enroll_roster_write_down reply_def) (simp add: rosterWriteDown_def findById_def)

text \<open>
  C5, amended. Whenever enroll issues the roster write, the calls it has made are the two
  lookups, the add of the class to the user's enrolled classes and then the add of the user
  to the class's roster, in that order and nothing after. If the roster write throws, the
  handler answers 500 "Error enrolling into class" and the store is the one after the
  first write: no compensating \<open>$pull\<close> is attempted. If it does not throw, the answer is
  201 and both writes are in the store.
\<close>

theorem enroll_write_order:
  assumes "ClassAddToSetRoster c j \<in> set (trace (enroll valid e i classId d))"
  shows "classId = Some c \<and> j = i
         \<and> trace (enroll valid e i classId d)
             = [UserFindById i, ClassFindById classId, UserAddToSetEnrolled i c,
                ClassAddToSetRoster c i]
         \<and> (if fails e (ClassAddToSetRoster c i)
              then status (enroll valid e i classId d) = 500
                 \<and> body (enroll valid e i classId d) = Message ''Error enrolling into class''
                 \<and> store (enroll valid e i classId d) = addEnrolled i c d
              else status (enroll valid e i classId d) = 201
                 \<and> store (enroll valid e i classId d) = addRoster c i (addEnrolled i c d))"
  using assms
  by (auto simp: enroll_def enrollFailed_def reply_def split: if_splits option.splits)

theorem enroll_write_order_witness:
  "ClassAddToSetRoster level3Id annId
        \<in> set (trace (enroll isValid24 rosterWriteDown annId (Some level3Id) academy))
   \<and> trace (enroll isValid24 rosterWriteDown annId (Some level3Id) academy)
        = [UserFindById annId, ClassFindById (Some level3Id), UserAddToSetEnrolled annId level3Id,
           ClassAddToSetRoster level3Id annId]
   \<and> status (enroll isValid24 rosterWriteDown annId (Some level3Id) academy) = 500
   \<and> store (enroll isValid24 rosterWriteDown annId (Some level3Id) academy)
        = addEnrolled annId level3Id academy"
proof -
  have m: "ClassAddToSetRoster level3Id annId
        \<in> set (trace (enroll isValid24 rosterWriteDown annId (Some level3Id) academy))"
    by (simp add: enroll_roster_write_down reply_def)
  have f: "fails rosterWriteDown (ClassAddToSetRoster level3Id annId)"
    by (simp add: rosterWriteDown_def)
  show ?thesis using enroll_write_order[OF m] m f by simp
qed

section \<open>The self-or-privileged gate\<close>

text \<open>
  C6, as the claim states it, fails when a lookup throws. Ann, a student with a session,
  asks for Bob's record: the id is well formed, Bob exists and is not Ann, so the claim has
  the gate answer 403. With the lookup of the target throwing, the \<open>catch\<close> of the gate
  answers 500 \<open>Auth check failed\<close>.
\<close>

theorem gate_lookup_counterexample:
  "findOneByClerkId (userColl academy) ''user_ann'' = Some (annId, ann)
   \<and> privilege ann = ''student''
   \<and> bobId \<noteq> [] \<and> isValid24 bobId
   \<and> findById (userColl academy) bobId = Some bob
   \<and> clerkId bob \<noteq> ''user_ann''
   \<and> allowSelfOrPriv isValid24 bobLookupDown (Some ''user_ann'') bobId academy
       = Reject 500 (Message ''Auth check failed'')"
  by (simp add: me_ann find_bob allowSelfOrPriv_def getMe_def isAdminOrInstructor_def
      bobLookupDown_def)
     (simp add: ann_def bob_def bobId_def)

text \<open>
  C6, amended. For a caller with a session (subject id \<open>s\<close>), the gate passes iff the
  lookup of the caller does not throw and either the caller's record has privilege
  \<open>admin\<close> or \<open>instructor\<close>, or the id is well formed, the lookup of the target does
  not throw, and the target exists with \<open>s\<close> as its IdP id. When it does not pass, it
  answers 500 if the lookup of the caller throws; otherwise 400 on an empty or malformed
  id; otherwise 500 if the lookup of the target throws; otherwise 404 when no user has the
  id; and 403 in the case that is left, a target who is somebody else.
\<close>

theorem self_or_privileged_gate:
  assumes "a = Some s" and "s \<noteq> []"
  shows "(allowSelfOrPriv valid e a pid d = Next \<longleftrightarrow>
            \<not> fails e (UserFindMe s)
            \<and> ((\<exists>p. findOneByClerkId (userColl d) s = Some p
                   \<and> (privilege (snd p) = ''admin'' \<or> privilege (snd p) = ''instructor''))
               \<or> (pid \<noteq> [] \<and> valid pid \<and> \<not> fails e (UserFindById pid)
                   \<and> (\<exists>t. findById (userColl d) pid = Some t \<and> clerkId t = s))))
         \<and> (allowSelfOrPriv valid e a pid d \<noteq> Next \<longrightarrow>
              allowSelfOrPriv valid e a pid d =
                (if fails e (UserFindMe s) then Reject 500 (Message ''Auth check failed'')
                 else if pid = [] \<or> \<not> valid pid then Reject 400 (Message ''Invalid ID'')
                 else if fails e (UserFindById pid)
                   then Reject 500 (Message ''Auth check failed'')
                 else if findById (userColl d) pid = None
                   then Reject 404 (Message ''User not found'')
                 else Reject 403 (Message ''Forbidden'')))"
  using assms
  by (auto simp: allowSelfOrPriv_def getMe_def isSelf_def isAdminOrInstructor_def
      split: if_splits option.splits sum.splits)

theorem self_or_privileged_gate_witness:
  "''user_bob'' \<noteq> [] \<and> ''user_ann'' \<noteq> []
   \<and> findOneByClerkId (userColl academy) ''user_bob'' = Some (bobId, bob)
   \<and> privilege bob = ''admin''
   \<and> allowSelfOrPriv isValid24 noFaults (Some ''user_bob'') annId academy = Next
   \<and> allowSelfOrPriv isValid24 noFaults (Some ''user_bob'') ''42'' academy = Next
   \<and> findOneByClerkId (userColl academy) ''user_ann'' = Some (annId, ann)
   \<and> privilege ann = ''student''
   \<and> allowSelfOrPriv isValid24 noFaults (Some ''user_ann'') annId academy = Next
   \<and> allowSelfOrPriv isValid24 noFaults (Some ''user_ann'') bobId academy
       = Reject 403 (Message ''Forbidden'')
   \<and> allowSelfOrPriv isValid24 noFaults (Some ''user_ann'') ''42'' academy
       = Reject 400 (Message ''Invalid ID'')
   \<and> allowSelfOrPriv isValid24 noFaults (Some ''user_ann'') level3Id academy
       = Reject 404 (Message ''User not found'')
   \<and> allowSelfOrPriv isValid24 bobLookupDown (Some ''user_ann'') bobId academy
       = Reject 500 (Message ''Auth check failed'')"
proof -
  have n: "''user_bob'' \<noteq> []" "''user_ann'' \<noteq> []" by simp_all
  have pr: "privilege bob = ''admin''" "privilege ann = ''student''"
    by (simp_all add: bob_def ann_def)
  have ids: "annId \<noteq> []" "bobId \<noteq> []" "level3Id \<noteq> []" "\<not> isValid24 ''42''"
    by (simp_all add: annId_def bobId_def level3Id_def isValid24_def)
  have lk: "findById (userColl academy) level3Id = None" "clerkId ann = ''user_ann''"
    "clerkId bob \<noteq> ''user_ann''"
    by (simp_all add: academy_def findById_def ann_def bob_def annId_def bobId_def level3Id_def)
  have nf: "\<And>c. \<not> fails noFaults c" by (simp add: noFaults_def)
  have bf: "\<not> fails bobLookupDown (UserFindMe ''user_ann'')"
    "fails bobLookupDown (UserFindById bobId)"
    by (simp_all add: bobLookupDown_def)
  have b1: "allowSelfOrPriv isValid24 noFaults (Some ''user_bob'') annId academy = Next"
    using self_or_privileged_gate[where valid = isValid24 and e = noFaults and d = academy
        and pid = annId, OF refl n(1)] nf me_bob pr
    by simp
  have b2: "allowSelfOrPriv isValid24 noFaults (Some ''user_bob'') ''42'' academy = Next"
    using self_or_privileged_gate[where valid = isValid24 and e = noFaults and d = academy
        and pid = "''42''", OF refl n(1)] nf me_bob pr
    by simp
  have a1: "allowSelfOrPriv isValid24 noFaults (Some ''user_ann'') annId academy = Next"
    using self_or_privileged_gate[where valid = isValid24 and e = noFaults and d = academy
        and pid = annId, OF refl n(2)] nf me_ann pr ids lk
    by simp
  have a2: "allowSelfOrPriv isValid24 noFaults (Some ''user_ann'') bobId academy
       = Reject 403 (Message ''Forbidden'')"
    using self_or_privileged_gate[where valid = isValid24 and e = noFaults and d = academy
        and pid = bobId, OF refl n(2)] nf me_ann pr ids lk find_bob
    by simp
  have a3: "allowSelfOrPriv isValid24 noFaults (Some ''user_ann'') ''42'' academy
       = Reject 400 (Message ''Invalid ID'')"
    using self_or_privileged_gate[where valid = isValid24 and e = noFaults and d = academy
        and pid = "''42''", OF refl n(2)] nf me_ann pr ids
    by simp
  have a4: "allowSelfOrPriv isValid24 noFaults (Some ''user_ann'') level3Id academy
       = Reject 404 (Message ''User not found'')"
    using self_or_privileged_gate[where valid = isValid24 and e = noFaults and d = academy
        and pid = level3Id, OF refl n(2)] nf me_ann pr ids lk
    by simp
  have a5: "allowSelfOrPriv isValid24 bobLookupDown (Some ''user_ann'') bobId academy
       = Reject 500 (Message ''Auth check failed'')"
    using self_or_privileged_gate[where valid = isValid24 and e = bobLookupDown and d = academy
        and pid = bobId, OF refl n(2)] bf me_ann pr ids
    by simp
  show ?thesis using n me_bob me_ann pr b1 b2 a1 a2 a3 a4 a5 by simp
qed

section \<open>Roster integrity under enroll and unenroll\<close>

text \<open>
  C7. Start from a consistent store and run any sequence of enroll and unenroll requests
  that are all answered 201. Then, for every user \<open>u\<close> (with id \<open>i\<close>) and every class
  \<open>c\<close> (with id \<open>j\<close>) of the resulting store, \<open>j\<close> is in \<open>u\<close>'s enrolled classes iff
  \<open>i\<close> is in \<open>c\<close>'s roster, and no roster lists an id twice.
\<close>

theorem roster_link_invariant:
  assumes "consistent d" and "runOps valid ops d = (ss, d')" and "\<forall>s\<in>set ss. s = 201"
  shows "(\<forall>i u j c. findById (userColl d') i = Some u \<and> findById (classColl d') j = Some c
            \<longrightarrow> (j \<in> set (enrolledClasses u) \<longleftrightarrow> i \<in> set (roster c)))
         \<and> (\<forall>j c. findById (classColl d') j = Some c \<longrightarrow> distinct (roster c))"
  using runOps_consistent[OF assms] unfolding consistent_def linked_def by blast

theorem roster_link_invariant_witness:
  "consistent academy
   \<and> runOps isValid24 [(noFaults, Enroll annId (Some level3Id)),
         (noFaults, Unenroll annId (Some level3Id)),
         (noFaults, Enroll annId (Some level3Id))] academy = ([201, 201, 201], academyEnrolled)
   \<and> list_all (\<lambda>s. s = 201) [201, 201, 201::nat]
   \<and> findById (userColl academyEnrolled) annId = Some (ann\<lparr>enrolledClasses := [level3Id]\<rparr>)
   \<and> findById (classColl academyEnrolled) level3Id = Some (level3\<lparr>roster := [annId]\<rparr>)
   \<and> (level3Id \<in> set (enrolledClasses (ann\<lparr>enrolledClasses := [level3Id]\<rparr>)))
       = (annId \<in> set (roster (level3\<lparr>roster := [annId]\<rparr>)))
   \<and> distinct (roster (level3\<lparr>roster := [annId]\<rparr>))"
proof -
  have h: "\<forall>s\<in>set [201, 201, 201::nat]. s = 201" by simp
  have u: "findById (userColl academyEnrolled) annId = Some (ann\<lparr>enrolledClasses := [level3Id]\<rparr>)"
    by (simp add: academyEnrolled_def findById_def)
  have c: "findById (classColl academyEnrolled) level3Id = Some (level3\<lparr>roster := [annId]\<rparr>)"
    by (simp add: academyEnrolled_def findById_def)
  show ?thesis
    using roster_link_invariant[OF consistent_academy run_example h] consistent_academy
      run_example u c
    by simp
qed

section \<open>The projection of the students list\<close>

text \<open>
  C8, as the claim states it, fails: the row the list gives for Ann, enrolled in the level
  3 class, carries \<open>_id\<close>, which is not among the six fields of the claim; so does the
  class inside it. (The inclusive projection keeps \<open>_id\<close>, and the admin page keys and
  links its rows by it.)
\<close>

theorem projection_id_counterexample:
  "body (studentsWithClasses wholeCount noFaults firstPage academyEnrolled)
     = PageJson [annRow (JArray [JObject level3Item])] 1 (Fin 1) (Fin 100)
   \<and> ''_id'' \<in> fst ` set (annRow (JArray [JObject level3Item]))
   \<and> ''_id'' \<notin> {''firstName'', ''lastName'', ''email'', ''privilege'', ''creationDate'',
                  ''enrolledClasses''}
   \<and> ''_id'' \<in> fst ` set level3Item
   \<and> ''_id'' \<notin> {''level'', ''ageGroup'', ''instructor'', ''schedule'', ''isEnrollmentOpen'',
                  ''image''}"
  using first_page_academyEnrolled[of "levelParam firstPage"]
  by (simp add: reply_def) (simp add: annRow_def level3Item_def)

text \<open>
  C8, amended. Every item of the list contains only the fields \<open>_id\<close>, \<open>firstName\<close>,
  \<open>lastName\<close>, \<open>email\<close>, \<open>privilege\<close>, \<open>creationDate\<close> and \<open>enrolledClasses\<close>, and
  \<open>enrolledClasses\<close> is an array of class objects that contain only \<open>_id\<close>, \<open>level\<close>,
  \<open>ageGroup\<close>, \<open>instructor\<close>, \<open>schedule\<close>, \<open>isEnrollmentOpen\<close> and \<open>image\<close>. In
  particular no item has a \<open>whatsapp\<close> field and no class in it a \<open>roster\<close> or a
  \<open>link\<close>.
\<close>

theorem projection_fields:
  assumes "body (studentsWithClasses toCount e q d) = PageJson items tot pg lm"
    and "item \<in> set items"
  shows "fst ` set item \<subseteq> {''_id'', ''firstName'', ''lastName'', ''email'', ''privilege'',
                              ''creationDate'', ''enrolledClasses''}
         \<and> ''whatsapp'' \<notin> fst ` set item
         \<and> (\<forall>v. (''enrolledClasses'', v) \<in> set item \<longrightarrow>
              (\<exists>obs. v = JArray obs
                 \<and> (\<forall>ob\<in>set obs. \<exists>fs. ob = JObject fs
                       \<and> fst ` set fs \<subseteq> {''_id'', ''level'', ''ageGroup'', ''instructor'',
                                             ''schedule'', ''isEnrollmentOpen'', ''image''}
                       \<and> ''roster'' \<notin> fst ` set fs \<and> ''link'' \<notin> fst ` set fs)))"
proof -
  from page_items[OF assms(1)] assms(2) obtain p where item: "item = studentItem d p"
    by auto
  have k: "fst ` set item \<subseteq> itemKeys" unfolding item by (rule studentItem_keys)
  have w: "''whatsapp'' \<notin> itemKeys" by (simp add: itemKeys_def)
  have r: "''roster'' \<notin> classKeys" "''link'' \<notin> classKeys" by (simp_all add: classKeys_def)
  have c: "\<forall>v. (''enrolledClasses'', v) \<in> set item \<longrightarrow>
              (\<exists>obs. v = JArray obs
                 \<and> (\<forall>ob\<in>set obs. \<exists>fs. ob = JObject fs \<and> fst ` set fs \<subseteq> classKeys
                       \<and> ''roster'' \<notin> fst ` set fs \<and> ''link'' \<notin> fst ` set fs))"
  proof (intro allI impI)
    fix v assume "(''enrolledClasses'', v) \<in> set item"
    then obtain obs where v: "v = JArray obs"
      and obs: "\<forall>ob\<in>set obs. \<exists>fs. ob = JObject fs \<and> fst ` set fs \<subseteq> classKeys"
      unfolding item using studentItem_classes by blast
    have "\<forall>ob\<in>set obs. \<exists>fs. ob = JObject fs \<and> fst ` set fs \<subseteq> classKeys
                       \<and> ''roster'' \<notin> fst ` set fs \<and> ''link'' \<notin> fst ` set fs"
    proof
      fix ob assume "ob \<in> set obs"
      with obs obtain fs where "ob = JObject fs" "fst ` set fs \<subseteq> classKeys" by blast
      moreover from this r have "''roster'' \<notin> fst ` set fs" "''link'' \<notin> fst ` set fs"
        by blast+
      ultimately show "\<exists>fs. ob = JObject fs \<and> fst ` set fs \<subseteq> classKeys
                       \<and> ''roster'' \<notin> fst ` set fs \<and> ''link'' \<notin> fst ` set fs"
        by blast
    qed
    with v show "\<exists>obs. v = JArray obs
                 \<and> (\<forall>ob\<in>set obs. \<exists>fs. ob = JObject fs \<and> fst ` set fs \<subseteq> classKeys
                       \<and> ''roster'' \<notin> fst ` set fs \<and> ''link'' \<notin> fst ` set fs)"
      by blast
  qed
  from k w have w': "''whatsapp'' \<notin> fst ` set item" by blast
  show ?thesis
    using k w' c unfolding itemKeys_def classKeys_def by (intro conjI)
qed

theorem projection_fields_witness:
  "body (studentsWithClasses wholeCount noFaults firstPage academyEnrolled)
     = PageJson [annRow (JArray [JObject level3Item])] 1 (Fin 1) (Fin 100)
   \<and> annRow (JArray [JObject level3Item]) \<in> set [annRow (JArray [JObject level3Item])]
   \<and> fst ` set (annRow (JArray [JObject level3Item]))
        \<subseteq> {''_id'', ''firstName'', ''lastName'', ''email'', ''privilege'', ''creationDate'',
            ''enrolledClasses''}
   \<and> ''whatsapp'' \<notin> fst ` set (annRow (JArray [JObject level3Item]))
   \<and> (''enrolledClasses'', JArray [JObject level3Item])
        \<in> set (annRow (JArray [JObject level3Item]))
   \<and> fst ` set level3Item
        \<subseteq> {''_id'', ''level'', ''ageGroup'', ''instructor'', ''schedule'', ''isEnrollmentOpen'',
            ''image''}
   \<and> ''roster'' \<notin> fst ` set level3Item \<and> ''link'' \<notin> fst ` set level3Item"
proof -
  have b: "body (studentsWithClasses wholeCount noFaults firstPage academyEnrolled)
     = PageJson [annRow (JArray [JObject level3Item])] 1 (Fin 1) (Fin 100)"
    using first_page_academyEnrolled[of "levelParam firstPage"] by (simp add: reply_def)
  have m: "annRow (JArray [JObject level3Item]) \<in> set [annRow (JArray [JObject level3Item])]"
    by simp
  have c: "(''enrolledClasses'', JArray [JObject level3Item])
        \<in> set (annRow (JArray [JObject level3Item]))"
    by (simp add: annRow_def)
  note t = projection_fields[OF b m]
  from t c obtain obs where o: "JArray [JObject level3Item] = JArray obs"
    and f: "\<forall>ob\<in>set obs. \<exists>fs. ob = JObject fs
                       \<and> fst ` set fs \<subseteq> {''_id'', ''level'', ''ageGroup'', ''instructor'',
                                             ''schedule'', ''isEnrollmentOpen'', ''image''}
                       \<and> ''roster'' \<notin> fst ` set fs \<and> ''link'' \<notin> fst ` set fs"
    by blast
  from o have "obs = [JObject level3Item]" by simp
  then have "JObject level3Item \<in> set obs" by simp
  with f have l: "fst ` set level3Item \<subseteq> {''_id'', ''level'', ''ageGroup'', ''instructor'',
        ''schedule'', ''isEnrollmentOpen'', ''image''}
      \<and> ''roster'' \<notin> fst ` set level3Item \<and> ''link'' \<notin> fst ` set level3Item"
    by blast
  from t have k: "fst ` set (annRow (JArray [JObject level3Item]))
        \<subseteq> {''_id'', ''firstName'', ''lastName'', ''email'', ''privilege'', ''creationDate'',
            ''enrolledClasses''}
     \<and> ''whatsapp'' \<notin> fst ` set (annRow (JArray [JObject level3Item]))"
    by blast
  show ?thesis using b m c l k by blast
qed

section \<open>The pagination guards\<close>

text \<open>
  C9, as the claim states it, fails in two places. At \<open>limit=0\<close>, \<open>Number("0") || 100\<close>
  is 100, so the limit is 100 and not 1. And the skip is a product of doubles, not the
  product of the numbers: at \<open>page=9007199254740992\<close> with the default limit it is
  900719925474099072, where \<open>(page - 1) * limit\<close> is 900719925474099100; at a page of
  \<open>2 ^ 1020\<close> it is \<open>Infinity\<close>, which is no count of documents, and the response is 500.
\<close>

theorem pagination_counterexample:
  "effectiveLimit (firstPage\<lparr>limitN := Fin 0\<rparr>) = Fin 100
   \<and> effectiveLimit (firstPage\<lparr>limitN := Fin 0\<rparr>) \<noteq> Fin 1
   \<and> effectivePage hugePage = Fin 9007199254740992
   \<and> effectiveLimit hugePage = Fin 100
   \<and> effectiveSkip hugePage = Fin 900719925474099072
   \<and> (9007199254740992 - 1) * 100 \<noteq> (900719925474099072 :: real)
   \<and> effectivePage overflowPage = Fin (2 ^ 1020)
   \<and> effectiveLimit overflowPage = Fin 100
   \<and> effectiveSkip overflowPage = PosInf
   \<and> status (studentsWithClasses wholeCount noFaults overflowPage academy) = 500"
  using hugePage_guards hugePage_skip overflowPage_guards overflowPage_skip page_overflow
  by (simp add: effectiveLimit_def math_max_def math_min_def js_or_def firstPage_def)

text \<open>
  C9, amended. For every request the limit is a finite number in [1, 200] and the page is
  at least 1; a limit that is absent, not a number or 0 gives the default 100, and
  \<open>limit=10000\<close> is clamped to 200. The query for the students is issued with the skip
  and this limit, and a 200 response carries the items of that slice of the students, with
  this page and this limit. The skip is \<open>(page - 1) * limit\<close> in double arithmetic: for
  a whole page and a whole limit with \<open>(page - 1) * limit\<close> below \<open>2 ^ 53\<close> it is exactly
  that product, and for \<open>page=Infinity\<close> it is \<open>Infinity\<close>.
\<close>

theorem pagination_guards:
  "(\<exists>r. effectiveLimit q = Fin r \<and> 1 \<le> r \<and> r \<le> 200)
   \<and> js_le (Fin 1) (effectivePage q)
   \<and> effectiveLimit (q\<lparr>limitN := NaN\<rparr>) = Fin 100
   \<and> effectiveLimit (q\<lparr>limitN := Fin 0\<rparr>) = Fin 100
   \<and> effectiveLimit (q\<lparr>limitN := Fin 10000\<rparr>) = Fin 200
   \<and> (\<exists>t. trace (studentsWithClasses toCount e q d)
             = UserFindStudents (effectiveSkip q) (effectiveLimit q) # t)
   \<and> (status (studentsWithClasses toCount e q d) = 200 \<longrightarrow>
        (\<exists>pg. slice toCount (effectiveSkip q) (effectiveLimit q) (students d) = Some pg
           \<and> body (studentsWithClasses toCount e q d)
               = PageJson (map (studentItem d) pg) (length (students d))
                   (effectivePage q) (effectiveLimit q)))
   \<and> (\<forall>n m. effectivePage q = Fin (of_int n) \<and> effectiveLimit q = Fin (of_int m)
          \<and> (n - 1) * m < 2 ^ 53
        \<longrightarrow> effectiveSkip q = Fin (of_int ((n - 1) * m)))
   \<and> (effectivePage q = PosInf \<longrightarrow> effectiveSkip q = PosInf)"
proof -
  have l: "effectiveLimit (q\<lparr>limitN := NaN\<rparr>) = Fin 100
     \<and> effectiveLimit (q\<lparr>limitN := Fin 0\<rparr>) = Fin 100
     \<and> effectiveLimit (q\<lparr>limitN := Fin 10000\<rparr>) = Fin 200"
    by (simp add: effectiveLimit_def math_max_def math_min_def js_or_def)
  have t: "\<exists>t. trace (studentsWithClasses toCount e q d)
             = UserFindStudents (effectiveSkip q) (effectiveLimit q) # t"
    by (simp add: studentsWithClasses_def reply_def Let_def split: option.splits)
  have b: "status (studentsWithClasses toCount e q d) = 200 \<longrightarrow>
        (\<exists>pg. slice toCount (effectiveSkip q) (effectiveLimit q) (students d) = Some pg
           \<and> body (studentsWithClasses toCount e q d)
               = PageJson (map (studentItem d) pg) (length (students d))
                   (effectivePage q) (effectiveLimit q))"
    by (auto simp: studentsWithClasses_def reply_def Let_def split: option.splits)
  have s: "\<forall>n m. effectivePage q = Fin (of_int n) \<and> effectiveLimit q = Fin (of_int m)
          \<and> (n - 1) * m < 2 ^ 53
        \<longrightarrow> effectiveSkip q = Fin (of_int ((n - 1) * m))"
    using skip_whole by blast
  have i: "effectivePage q = PosInf \<longrightarrow> effectiveSkip q = PosInf"
    using skip_infinite by blast
  show ?thesis using effectiveLimit_cases[of q] effectivePage_ge[of q] l t b s i
    by (intro conjI) blast+
qed

theorem pagination_guards_witness:
  "status (studentsWithClasses wholeCount noFaults clampedPage academy) = 200
   \<and> effectiveLimit clampedPage = Fin 200 \<and> effectivePage clampedPage = Fin 1
   \<and> body (studentsWithClasses wholeCount noFaults clampedPage academy)
       = PageJson [annRow (JArray [])] 1 (Fin 1) (Fin 200)
   \<and> status (studentsWithClasses wholeCount noFaults secondOfOne academyOfTwo) = 200
   \<and> effectivePage secondOfOne = Fin (of_int 2) \<and> effectiveLimit secondOfOne = Fin (of_int 1)
   \<and> (2 - 1) * 1 < (2 :: int) ^ 53
   \<and> effectiveSkip secondOfOne = Fin 1
   \<and> slice wholeCount (Fin 1) (Fin 1) (students academyOfTwo) = Some [(cemId, cem)]
   \<and> body (studentsWithClasses wholeCount noFaults secondOfOne academyOfTwo)
       = PageJson [cemRow] 2 (Fin 2) (Fin 1)
   \<and> (\<exists>t. trace (studentsWithClasses wholeCount noFaults secondOfOne academyOfTwo)
             = UserFindStudents (Fin 1) (Fin 1) # t)
   \<and> effectivePage infinitePage = PosInf \<and> effectiveSkip infinitePage = PosInf"
proof -
  note f = pagination_guards[of infinitePage wholeCount noFaults academy]
  from f infinitePage_guards(2) have inf: "effectiveSkip infinitePage = PosInf" by blast
  note c = pagination_guards[of clampedPage wholeCount noFaults academy]
  note t = pagination_guards[of secondOfOne wholeCount noFaults academyOfTwo]
  have s1: "status (studentsWithClasses wholeCount noFaults clampedPage academy) = 200"
    by (simp add: page_clamped reply_def)
  have s2: "status (studentsWithClasses wholeCount noFaults secondOfOne academyOfTwo) = 200"
    by (simp add: page_second reply_def)
  have g: "effectivePage secondOfOne = Fin (of_int 2)" "effectiveLimit secondOfOne = Fin (of_int 1)"
    "(2 - 1) * 1 < (2 :: int) ^ 53"
    by (simp_all add: secondOfOne_guards)
  from t g have "effectiveSkip secondOfOne = Fin (of_int ((2 - 1) * 1))" by blast
  then have k: "effectiveSkip secondOfOne = Fin 1" by simp
  from t s2 obtain pg where
    pg: "slice wholeCount (effectiveSkip secondOfOne) (effectiveLimit secondOfOne)
           (students academyOfTwo) = Some pg"
    and b2: "body (studentsWithClasses wholeCount noFaults secondOfOne academyOfTwo)
       = PageJson (map (studentItem academyOfTwo) pg) (length (students academyOfTwo))
           (effectivePage secondOfOne) (effectiveLimit secondOfOne)"
    by blast
  have sl: "slice wholeCount (Fin 1) (Fin 1) (students academyOfTwo) = Some [(cemId, cem)]"
    by (simp add: slice_def students_academyOfTwo)
  then have "pg = [(cemId, cem)]" using pg unfolding k secondOfOne_guards by simp
  then have b2': "body (studentsWithClasses wholeCount noFaults secondOfOne academyOfTwo)
       = PageJson [cemRow] 2 (Fin 2) (Fin 1)"
    using b2 by (simp add: secondOfOne_guards students_academyOfTwo studentItem_cem)
  from t obtain tr where
    "trace (studentsWithClasses wholeCount noFaults secondOfOne academyOfTwo)
       = UserFindStudents (effectiveSkip secondOfOne) (effectiveLimit secondOfOne) # tr"
    by blast
  then have tr: "\<exists>t. trace (studentsWithClasses wholeCount noFaults secondOfOne academyOfTwo)
             = UserFindStudents (Fin 1) (Fin 1) # t"
    unfolding k secondOfOne_guards by blast
  from c s1 obtain pg1 where
    "slice wholeCount (effectiveSkip clampedPage) (effectiveLimit clampedPage)
           (students academy) = Some pg1"
    and b1: "body (studentsWithClasses wholeCount noFaults clampedPage academy)
       = PageJson (map (studentItem academy) pg1) (length (students academy))
           (effectivePage clampedPage) (effectiveLimit clampedPage)"
    by blast
  then have "pg1 = [(annId, ann)]"
    by (simp add: clampedPage_guards slice_def students_academy)
  then have b1': "body (studentsWithClasses wholeCount noFaults clampedPage academy)
       = PageJson [annRow (JArray [])] 1 (Fin 1) (Fin 200)"
    using b1 by (simp add: clampedPage_guards students_academy studentItem_ann)
  show ?thesis
    using s1 s2 g k sl b1' b2' tr clampedPage_guards(1,2) infinitePage_guards(2) inf by blast
qed

section \<open>GET /user for a caller without privilege\<close>

text \<open>
  C10. Let the caller's record (the one with the session's subject id \<open>s\<close> as IdP id) not
  be an admin's or an instructor's. Then the response of GET /user is the same for every
  query, and the store is not touched; a 200 response carries the caller's own record,
  whose IdP id is \<open>s\<close>; and when no lookup throws, the response is that record, or 404
  when there is none.
\<close>

theorem nonprivileged_get_own_record:
  assumes "\<not> isAdminOrInstructor (map_option snd (findOneByClerkId (userColl d) s))"
  shows "getUser valid e s q d = getUser valid e s q' d
         \<and> store (getUser valid e s q d) = d
         \<and> (status (getUser valid e s q d) = 200 \<longrightarrow>
              (\<exists>p. body (getUser valid e s q d) = UserJson (Some p) \<and> clerkId (snd p) = s
                  \<and> findOneByClerkId (userColl d) s = Some p))
         \<and> (\<not> fails e (UserFindMe s) \<and> \<not> fails e (UserFindOneByClerkId s) \<longrightarrow>
              (case findOneByClerkId (userColl d) s of
                 None \<Rightarrow> status (getUser valid e s q d) = 404
                           \<and> body (getUser valid e s q d) = Message ''User not found''
               | Some p \<Rightarrow> status (getUser valid e s q d) = 200
                           \<and> body (getUser valid e s q d) = UserJson (Some p)))"
  using assms
  by (auto simp: getUser_def getMe_def reply_def Let_def isAdminOrInstructor_def findOneByClerkId_def
      dest!: find_SomeD split: if_splits option.splits sum.splits)

theorem nonprivileged_get_own_record_witness:
  "\<not> isAdminOrInstructor (map_option snd (findOneByClerkId (userColl academy) ''user_ann''))
   \<and> \<not> fails noFaults (UserFindMe ''user_ann'')
   \<and> \<not> fails noFaults (UserFindOneByClerkId ''user_ann'')
   \<and> getUser isValid24 noFaults ''user_ann'' [(''email'', ''bob@x.org'')] academy
       = getUser isValid24 noFaults ''user_ann'' [] academy
   \<and> status (getUser isValid24 noFaults ''user_ann'' [(''email'', ''bob@x.org'')] academy) = 200
   \<and> body (getUser isValid24 noFaults ''user_ann'' [(''email'', ''bob@x.org'')] academy)
       = UserJson (Some (annId, ann))"
proof -
  have p: "\<not> isAdminOrInstructor (map_option snd (findOneByClerkId (userColl academy) ''user_ann''))"
    by (simp add: me_ann isAdminOrInstructor_def ann_def)
  have f: "\<not> fails noFaults (UserFindMe ''user_ann'')"
    "\<not> fails noFaults (UserFindOneByClerkId ''user_ann'')"
    by (simp_all add: noFaults_def)
  note t = nonprivileged_get_own_record[OF p, where valid = isValid24 and e = noFaults
        and q = "[(''email'', ''bob@x.org'')]" and q' = "[]"]
  from t have eq: "getUser isValid24 noFaults ''user_ann'' [(''email'', ''bob@x.org'')] academy
       = getUser isValid24 noFaults ''user_ann'' [] academy"
    by blast
  from t f have c: "case findOneByClerkId (userColl academy) ''user_ann'' of
      None \<Rightarrow> status (getUser isValid24 noFaults ''user_ann'' [(''email'', ''bob@x.org'')] academy) = 404
        \<and> body (getUser isValid24 noFaults ''user_ann'' [(''email'', ''bob@x.org'')] academy)
            = Message ''User not found''
    | Some p \<Rightarrow> status (getUser isValid24 noFaults ''user_ann'' [(''email'', ''bob@x.org'')] academy) = 200
        \<and> body (getUser isValid24 noFaults ''user_ann'' [(''email'', ''bob@x.org'')] academy)
            = UserJson (Some p)"
    by blast
  have r: "status (getUser isValid24 noFaults ''user_ann'' [(''email'', ''bob@x.org'')] academy) = 200
      \<and> body (getUser isValid24 noFaults ''user_ann'' [(''email'', ''bob@x.org'')] academy)
          = UserJson (Some (annId, ann))"
    using c unfolding me_ann by simp
  show ?thesis using eq r p f by blast
qed

end
